theory Spec2Isabelle
  imports Complex_Main "HOL-Library.AList"
begin

section \<open>Data model\<close>

text \<open>
  The values the program handles are Python values that come from JSON documents (the
  conversation log file, the metadata returned by the intent classifier) or are built
  from them: \<open>None\<close>, booleans, numbers, strings, lists and dictionaries. A dictionary
  is an association list with distinct keys in insertion order; \<open>AList.update\<close> is the
  item assignment \<open>d[k] = v\<close> (replace in place, or append a new key).
\<close>

datatype json =
    JNull
  | JBool bool
  | JInt int
  | JFloat real
  | JStr string
  | JList "json list"
  | JDict "(string \<times> json) list"

text \<open>The exceptions of the program: Python's own, and those raised by a collaborator.\<close>

datatype error =
    KeyError string
  | IndexError
  | TypeError
  | AttributeError
  | BackendError string
  | LLMError string
  | OSError string
  | JSONDecodeError

text \<open>\<open>SearchType\<close> of \<open>src.utils.config\<close>; the unset filter is \<open>None\<close>.\<close>

datatype search_type = Notes | Music | Ledger | Image

text \<open>
  \<open>SearchModels\<close> and \<open>SearchConfig\<close>: one optional handle, respectively one optional
  configuration object, per content type. The program only tests them for truthiness
  and hands them to the backends, so their types are parameters.
\<close>

record 'h search_models =
  notes_search :: "'h option"
  music_search :: "'h option"
  ledger_search :: "'h option"
  image_search :: "'h option"

record 'c search_config =
  notes_cfg :: "'c option"
  music_cfg :: "'c option"
  ledger_cfg :: "'c option"
  image_cfg :: "'c option"

text \<open>
  The calls that leave the program are recorded, in order, as events: a computation
  returns the events it caused and either the exception it raised or its value.
\<close>

datatype event =
    Query search_type json
  | Collate search_type
  | Setup search_type
  | Understand string
  | Converse string string
  | Summarize string string "string option"
  | WriteLog json

type_synonym 'a comp = "event list \<times> (error + 'a)"

text \<open>
  The search backends (\<open>src.search_type\<close>: \<open>asymmetric\<close>, \<open>symmetric_ledger\<close>,
  \<open>image_search\<close>) are external: each function is a parameter that returns or raises.
  \<open>'r\<close> is the type of raw hits. The collation functions receive the handle and the
  image configuration, from which the source reads \<open>entries\<close>, \<open>image_names\<close> and
  \<open>input_directory\<close>.
\<close>

record ('h, 'r, 'c) backends =
  asymmetric_query :: "json \<Rightarrow> 'h \<Rightarrow> error + 'r"
  asymmetric_collate :: "'r \<Rightarrow> 'h \<Rightarrow> int option \<Rightarrow> error + json"
  asymmetric_setup :: "'c \<Rightarrow> bool \<Rightarrow> error + 'h"
  ledger_query :: "json \<Rightarrow> 'h \<Rightarrow> error + 'r"
  ledger_collate :: "'r \<Rightarrow> 'h \<Rightarrow> int option \<Rightarrow> error + json"
  ledger_setup :: "'c \<Rightarrow> bool \<Rightarrow> error + 'h"
  image_query :: "json \<Rightarrow> int option \<Rightarrow> 'h \<Rightarrow> error + 'r"
  image_collate :: "'r \<Rightarrow> 'h \<Rightarrow> 'c \<Rightarrow> int option \<Rightarrow> error + json"
  image_setup :: "'c \<Rightarrow> bool \<Rightarrow> error + 'h"

section \<open>Search\<close>

text \<open>
  \<open>search(q, n, t)\<close>. The query is a Python value: a string from the HTTP layer, and
  whatever the intent metadata holds (possibly \<open>None\<close>) when \<open>chat\<close> calls it.
  A branch queries its backend, then collates; an exception of either ends the call.
  In the image branch the arguments of \<open>collate_results\<close> are evaluated after the
  query: reading \<open>search_config.image.input_directory\<close> fails when no image
  configuration is set.
\<close>

definition search ::
  "('h, 'r, 'c) backends \<Rightarrow> 'h search_models \<Rightarrow> 'c search_config \<Rightarrow>
   json \<Rightarrow> int option \<Rightarrow> search_type option \<Rightarrow> json comp" where
  "search B model cfg q n t =
    (if q = JNull \<or> q = JStr [] then ([], Inr (JDict []))
     else if (t = Some Notes \<or> t = None) \<and> notes_search model \<noteq> None then
       (case asymmetric_query B q (the (notes_search model)) of
          Inl e \<Rightarrow> ([Query Notes q], Inl e)
        | Inr hits \<Rightarrow>
            ([Query Notes q, Collate Notes],
             asymmetric_collate B hits (the (notes_search model)) n))
     else if (t = Some Music \<or> t = None) \<and> music_search model \<noteq> None then
       (case asymmetric_query B q (the (music_search model)) of
          Inl e \<Rightarrow> ([Query Music q], Inl e)
        | Inr hits \<Rightarrow>
            ([Query Music q, Collate Music],
             asymmetric_collate B hits (the (music_search model)) n))
     else if (t = Some Ledger \<or> t = None) \<and> ledger_search model \<noteq> None then
       (case ledger_query B q (the (ledger_search model)) of
          Inl e \<Rightarrow> ([Query Ledger q], Inl e)
        | Inr hits \<Rightarrow>
            ([Query Ledger q, Collate Ledger],
             ledger_collate B hits (the (ledger_search model)) n))
     else if (t = Some Image \<or> t = None) \<and> image_search model \<noteq> None then
       (case image_query B q n (the (image_search model)) of
          Inl e \<Rightarrow> ([Query Image q], Inl e)
        | Inr hits \<Rightarrow>
            (case image_cfg cfg of
               None \<Rightarrow> ([Query Image q], Inl AttributeError)
             | Some c \<Rightarrow>
                 ([Query Image q, Collate Image],
                  image_collate B hits (the (image_search model)) c n)))
     else ([], Inr (JDict [])))"

subsection \<open>The routing policy in the words of the specification\<close>

definition type_matches :: "search_type option \<Rightarrow> search_type \<Rightarrow> bool" where
  "type_matches t ty = (t = Some ty \<or> t = None)"

fun handle_of :: "'h search_models \<Rightarrow> search_type \<Rightarrow> 'h option" where
  "handle_of model Notes = notes_search model"
| "handle_of model Music = music_search model"
| "handle_of model Ledger = ledger_search model"
| "handle_of model Image = image_search model"

text \<open>The first type, in the priority order, whose filter matches and whose handle is present.\<close>

definition first_backend :: "search_type option \<Rightarrow> 'h search_models \<Rightarrow> search_type option" where
  "first_backend t model =
     find (\<lambda>ty. type_matches t ty \<and> handle_of model ty \<noteq> None) [Notes, Music, Ledger, Image]"

text \<open>Querying one backend and collating its hits; the value is the collated output.\<close>

fun backend_query :: "('h, 'r, 'c) backends \<Rightarrow> search_type \<Rightarrow> json \<Rightarrow> int option \<Rightarrow> 'h \<Rightarrow> error + 'r" where
  "backend_query B Notes q n h = asymmetric_query B q h"
| "backend_query B Music q n h = asymmetric_query B q h"
| "backend_query B Ledger q n h = ledger_query B q h"
| "backend_query B Image q n h = image_query B q n h"

fun backend_collate ::
  "('h, 'r, 'c) backends \<Rightarrow> 'c search_config \<Rightarrow> search_type \<Rightarrow> 'r \<Rightarrow> 'h \<Rightarrow> int option \<Rightarrow> json comp" where
  "backend_collate B cfg Notes hits h n = ([Collate Notes], asymmetric_collate B hits h n)"
| "backend_collate B cfg Music hits h n = ([Collate Music], asymmetric_collate B hits h n)"
| "backend_collate B cfg Ledger hits h n = ([Collate Ledger], ledger_collate B hits h n)"
| "backend_collate B cfg Image hits h n =
     (case image_cfg cfg of
        None \<Rightarrow> ([], Inl AttributeError)
      | Some c \<Rightarrow> ([Collate Image], image_collate B hits h c n))"

definition invoke_backend ::
  "('h, 'r, 'c) backends \<Rightarrow> 'c search_config \<Rightarrow> search_type \<Rightarrow> 'h \<Rightarrow> json \<Rightarrow> int option \<Rightarrow> json comp" where
  "invoke_backend B cfg ty h q n =
     (case backend_query B ty q n h of
        Inl e \<Rightarrow> ([Query ty q], Inl e)
      | Inr hits \<Rightarrow>
          (case backend_collate B cfg ty hits h n of (evs, r) \<Rightarrow> (Query ty q # evs, r)))"

definition route_spec ::
  "('h, 'r, 'c) backends \<Rightarrow> 'h search_models \<Rightarrow> 'c search_config \<Rightarrow>
   json \<Rightarrow> int option \<Rightarrow> search_type option \<Rightarrow> json comp" where
  "route_spec B model cfg q n t =
     (case first_backend t model of
        None \<Rightarrow> ([], Inr (JDict []))
      | Some ty \<Rightarrow> invoke_backend B cfg ty (the (handle_of model ty)) q n)"

text \<open>The content types whose backend a computation queried, in order.\<close>

fun queried :: "event list \<Rightarrow> search_type list" where
  "queried [] = []"
| "queried (Query ty q # evs) = ty # queried evs"
| "queried (ev # evs) = queried evs"

text \<open>The content type an event of a backend belongs to.\<close>

fun event_type :: "event \<Rightarrow> search_type option" where
  "event_type (Query ty q) = Some ty"
| "event_type (Collate ty) = Some ty"
| "event_type (Setup ty) = Some ty"
| "event_type ev = None"

section \<open>Regeneration and initial setup\<close>

text \<open>
  A step of a procedure that mutates a state: the events, the exception that ended it
  (if any) and the state it left behind. \<open>then_step\<close> is sequencing: a step that raised
  ends the procedure with the state reached so far.
\<close>

type_synonym 's proc = "event list \<times> error option \<times> 's"

definition then_step :: "'s proc \<Rightarrow> ('s \<Rightarrow> 's proc) \<Rightarrow> 's proc" where
  "then_step r f =
     (case r of
        (evs, Some e, s) \<Rightarrow> (evs, Some e, s)
      | (evs, None, s) \<Rightarrow> (case f s of (evs', r', s') \<Rightarrow> (evs @ evs', r', s')))"

text \<open>The four statements of \<open>regenerate(t)\<close>; the assignment happens only if \<open>setup\<close> returns.\<close>

definition regenerate_notes ::
  "('h, 'r, 'c) backends \<Rightarrow> 'c search_config \<Rightarrow> search_type option \<Rightarrow> 'h search_models \<Rightarrow> 'h search_models proc" where
  "regenerate_notes B cfg t model =
     (if (t = Some Notes \<or> t = None) \<and> notes_cfg cfg \<noteq> None then
        (case asymmetric_setup B (the (notes_cfg cfg)) True of
           Inl e \<Rightarrow> ([Setup Notes], Some e, model)
         | Inr h \<Rightarrow> ([Setup Notes], None, model\<lparr>notes_search := Some h\<rparr>))
      else ([], None, model))"

definition regenerate_music ::
  "('h, 'r, 'c) backends \<Rightarrow> 'c search_config \<Rightarrow> search_type option \<Rightarrow> 'h search_models \<Rightarrow> 'h search_models proc" where
  "regenerate_music B cfg t model =
     (if (t = Some Music \<or> t = None) \<and> music_cfg cfg \<noteq> None then
        (case asymmetric_setup B (the (music_cfg cfg)) True of
           Inl e \<Rightarrow> ([Setup Music], Some e, model)
         | Inr h \<Rightarrow> ([Setup Music], None, model\<lparr>music_search := Some h\<rparr>))
      else ([], None, model))"

definition regenerate_ledger ::
  "('h, 'r, 'c) backends \<Rightarrow> 'c search_config \<Rightarrow> search_type option \<Rightarrow> 'h search_models \<Rightarrow> 'h search_models proc" where
  "regenerate_ledger B cfg t model =
     (if (t = Some Ledger \<or> t = None) \<and> ledger_cfg cfg \<noteq> None then
        (case ledger_setup B (the (ledger_cfg cfg)) True of
           Inl e \<Rightarrow> ([Setup Ledger], Some e, model)
         | Inr h \<Rightarrow> ([Setup Ledger], None, model\<lparr>ledger_search := Some h\<rparr>))
      else ([], None, model))"

definition regenerate_image ::
  "('h, 'r, 'c) backends \<Rightarrow> 'c search_config \<Rightarrow> search_type option \<Rightarrow> 'h search_models \<Rightarrow> 'h search_models proc" where
  "regenerate_image B cfg t model =
     (if (t = Some Image \<or> t = None) \<and> image_cfg cfg \<noteq> None then
        (case image_setup B (the (image_cfg cfg)) True of
           Inl e \<Rightarrow> ([Setup Image], Some e, model)
         | Inr h \<Rightarrow> ([Setup Image], None, model\<lparr>image_search := Some h\<rparr>))
      else ([], None, model))"

text \<open>
  \<open>regenerate(t)\<close>: outcome \<open>None\<close> is the return of the status message. The
  configuration registry is read only.
\<close>

definition regenerate ::
  "('h, 'r, 'c) backends \<Rightarrow> 'c search_config \<Rightarrow> search_type option \<Rightarrow> 'h search_models \<Rightarrow> 'h search_models proc" where
  "regenerate B cfg t model =
     then_step (then_step (then_step (regenerate_notes B cfg t model)
       (regenerate_music B cfg t)) (regenerate_ledger B cfg t)) (regenerate_image B cfg t)"

text \<open>
  \<open>initialize_search(config, regenerate, verbose)\<close>. The four configuration objects are
  what \<open>create_from_dictionary\<close> (external) returned: \<open>cfg\<close>. \<open>SearchModels()\<close> has
  no handle. A handle is set up exactly for the configured types; an exception of a
  setup ends the start of the program.
\<close>

definition empty_models :: "'h search_models" where
  "empty_models = \<lparr>notes_search = None, music_search = None, ledger_search = None, image_search = None\<rparr>"

definition initialize_search ::
  "('h, 'r, 'c) backends \<Rightarrow> 'c search_config \<Rightarrow> bool \<Rightarrow> 'h search_models proc" where
  "initialize_search B cfg regen =
     then_step (then_step (then_step
       (case notes_cfg cfg of
          None \<Rightarrow> ([], None, empty_models)
        | Some c \<Rightarrow>
            (case asymmetric_setup B c regen of
               Inl e \<Rightarrow> ([Setup Notes], Some e, empty_models)
             | Inr h \<Rightarrow> ([Setup Notes], None, empty_models\<lparr>notes_search := Some h\<rparr>)))
       (\<lambda>model. case music_cfg cfg of
          None \<Rightarrow> ([], None, model)
        | Some c \<Rightarrow>
            (case asymmetric_setup B c regen of
               Inl e \<Rightarrow> ([Setup Music], Some e, model)
             | Inr h \<Rightarrow> ([Setup Music], None, model\<lparr>music_search := Some h\<rparr>))))
       (\<lambda>model. case ledger_cfg cfg of
          None \<Rightarrow> ([], None, model)
        | Some c \<Rightarrow>
            (case ledger_setup B c regen of
               Inl e \<Rightarrow> ([Setup Ledger], Some e, model)
             | Inr h \<Rightarrow> ([Setup Ledger], None, model\<lparr>ledger_search := Some h\<rparr>))))
       (\<lambda>model. case image_cfg cfg of
          None \<Rightarrow> ([], None, model)
        | Some c \<Rightarrow>
            (case image_setup B c regen of
               Inl e \<Rightarrow> ([Setup Image], Some e, model)
             | Inr h \<Rightarrow> ([Setup Image], None, model\<lparr>image_search := Some h\<rparr>)))"

fun config_of :: "'c search_config \<Rightarrow> search_type \<Rightarrow> 'c option" where
  "config_of cfg Notes = notes_cfg cfg"
| "config_of cfg Music = music_cfg cfg"
| "config_of cfg Ledger = ledger_cfg cfg"
| "config_of cfg Image = image_cfg cfg"

fun backend_setup :: "('h, 'r, 'c) backends \<Rightarrow> search_type \<Rightarrow> 'c \<Rightarrow> bool \<Rightarrow> error + 'h" where
  "backend_setup B Notes c r = asymmetric_setup B c r"
| "backend_setup B Music c r = asymmetric_setup B c r"
| "backend_setup B Ledger c r = ledger_setup B c r"
| "backend_setup B Image c r = image_setup B c r"

text \<open>The content types whose handle a computation set up, in order.\<close>

fun rebuilt :: "event list \<Rightarrow> search_type list" where
  "rebuilt [] = []"
| "rebuilt (Setup ty # evs) = ty # rebuilt evs"
| "rebuilt (ev # evs) = rebuilt evs"

text \<open>Handles exist only for configured types: what \<open>initialize_search\<close> establishes.\<close>

definition handles_configured :: "'c search_config \<Rightarrow> 'h search_models \<Rightarrow> bool" where
  "handles_configured cfg model =
     ((notes_cfg cfg = None \<longrightarrow> notes_search model = None) \<and>
      (music_cfg cfg = None \<longrightarrow> music_search model = None) \<and>
      (ledger_cfg cfg = None \<longrightarrow> ledger_search model = None) \<and>
      (image_cfg cfg = None \<longrightarrow> image_search model = None))"

subsection \<open>Regeneration in the words of the specification\<close>

text \<open>
  "For each content type matching the filter (or all, if filter is None) AND
  configured, rebuild that type's handle": the types are taken in the order Notes,
  Music, Ledger, Image, each handle is replaced by what the setup of its type returns
  (with \<open>regenerate=True\<close>), and an exception of a setup ends the operation.
\<close>

fun set_handle :: "'h search_models \<Rightarrow> search_type \<Rightarrow> 'h \<Rightarrow> 'h search_models" where
  "set_handle model Notes h = model\<lparr>notes_search := Some h\<rparr>"
| "set_handle model Music h = model\<lparr>music_search := Some h\<rparr>"
| "set_handle model Ledger h = model\<lparr>ledger_search := Some h\<rparr>"
| "set_handle model Image h = model\<lparr>image_search := Some h\<rparr>"

fun rebuild_each ::
  "('h, 'r, 'c) backends \<Rightarrow> 'c search_config \<Rightarrow> search_type list \<Rightarrow> 'h search_models \<Rightarrow> 'h search_models proc" where
  "rebuild_each B cfg [] model = ([], None, model)"
| "rebuild_each B cfg (ty # tys) model =
     (case backend_setup B ty (the (config_of cfg ty)) True of
        Inl e \<Rightarrow> ([Setup ty], Some e, model)
      | Inr h \<Rightarrow>
          (case rebuild_each B cfg tys (set_handle model ty h) of
             (evs, out, model') \<Rightarrow> (Setup ty # evs, out, model')))"

definition regenerate_spec ::
  "('h, 'r, 'c) backends \<Rightarrow> 'c search_config \<Rightarrow> search_type option \<Rightarrow> 'h search_models \<Rightarrow> 'h search_models proc" where
  "regenerate_spec B cfg t model =
     rebuild_each B cfg
       (filter (\<lambda>ty. type_matches t ty \<and> config_of cfg ty \<noteq> None) [Notes, Music, Ledger, Image])
       model"

section \<open>Python operations on values\<close>

text \<open>Truthiness, as tested by \<open>not meta_log\<close>.\<close>

fun truthy :: "json \<Rightarrow> bool" where
  "truthy JNull = False"
| "truthy (JBool b) = b"
| "truthy (JInt i) = (i \<noteq> 0)"
| "truthy (JFloat x) = (x \<noteq> 0)"
| "truthy (JStr s) = (s \<noteq> [])"
| "truthy (JList xs) = (xs \<noteq> [])"
| "truthy (JDict kvs) = (kvs \<noteq> [])"

text \<open>\<open>d.get(k, default)\<close>: only a dictionary has the method.\<close>

fun py_get :: "json \<Rightarrow> string \<Rightarrow> json \<Rightarrow> error + json" where
  "py_get (JDict kvs) k d = Inr (case map_of kvs k of None \<Rightarrow> d | Some v \<Rightarrow> v)"
| "py_get v k d = Inl AttributeError"

text \<open>\<open>v[k]\<close> with a string key: a missing key raises, a value that is no dictionary too.\<close>

fun py_item :: "json \<Rightarrow> string \<Rightarrow> error + json" where
  "py_item (JDict kvs) k = (case map_of kvs k of None \<Rightarrow> Inl (KeyError k) | Some v \<Rightarrow> Inr v)"
| "py_item v k = Inl TypeError"

text \<open>\<open>v[-1]\<close>: the last element of a list or string; a dictionary has no key \<open>-1\<close>.\<close>

fun py_last :: "json \<Rightarrow> error + json" where
  "py_last (JList xs) = (if xs = [] then Inl IndexError else Inr (last xs))"
| "py_last (JStr s) = (if s = [] then Inl IndexError else Inr (JStr [last s]))"
| "py_last (JDict kvs) = Inl (KeyError ''-1'')"
| "py_last v = Inl TypeError"

text \<open>\<open>len(v)\<close>.\<close>

fun py_len :: "json \<Rightarrow> error + nat" where
  "py_len (JList xs) = Inr (length xs)"
| "py_len (JStr s) = Inr (length s)"
| "py_len (JDict kvs) = Inr (length kvs)"
| "py_len v = Inl TypeError"

text \<open>\<open>k in v\<close> with a string key, for a dictionary.\<close>

fun py_contains :: "json \<Rightarrow> string \<Rightarrow> bool" where
  "py_contains (JDict kvs) k = (map_of kvs k \<noteq> None)"
| "py_contains v k = False"

text \<open>\<open>d[k] = v\<close>.\<close>

fun py_setitem :: "json \<Rightarrow> string \<Rightarrow> json \<Rightarrow> error + json" where
  "py_setitem (JDict kvs) k v = Inr (JDict (AList.update k v kvs))"
| "py_setitem d k v = Inl TypeError"

text \<open>\<open>v.append(x)\<close>: only a list has the method.\<close>

fun py_append :: "json \<Rightarrow> json \<Rightarrow> error + json" where
  "py_append (JList xs) x = Inr (JList (xs @ [x]))"
| "py_append v x = Inl AttributeError"

text \<open>Iteration: the elements of a list, the keys of a dictionary, the characters of a string.\<close>

fun py_iter :: "json \<Rightarrow> error + json list" where
  "py_iter (JList xs) = Inr xs"
| "py_iter (JDict kvs) = Inr (map (\<lambda>kv. JStr (fst kv)) kvs)"
| "py_iter (JStr s) = Inr (map (\<lambda>c. JStr [c]) s)"
| "py_iter v = Inl TypeError"

text \<open>\<open>[item["Entry"] for item in result_list]\<close>: the first failing item raises.\<close>

fun entries_of :: "json list \<Rightarrow> error + json list" where
  "entries_of [] = Inr []"
| "entries_of (item # items) =
     (case py_item item ''Entry'' of
        Inl e \<Rightarrow> Inl e
      | Inr b \<Rightarrow> (case entries_of items of Inl e \<Rightarrow> Inl e | Inr bs \<Rightarrow> Inr (b # bs)))"

text \<open>\<open>sep.join(xs)\<close>: every element has to be a string.\<close>

fun join_strings :: "string \<Rightarrow> string list \<Rightarrow> string" where
  "join_strings sep [] = []"
| "join_strings sep [x] = x"
| "join_strings sep (x # y # ys) = x @ sep @ join_strings sep (y # ys)"

fun strings_of :: "json list \<Rightarrow> error + string list" where
  "strings_of [] = Inr []"
| "strings_of (JStr s # vs) = (case strings_of vs of Inl e \<Rightarrow> Inl e | Inr ss \<Rightarrow> Inr (s # ss))"
| "strings_of (v # vs) = Inl TypeError"

definition py_join :: "string \<Rightarrow> json list \<Rightarrow> error + string" where
  "py_join sep vs = (case strings_of vs of Inl e \<Rightarrow> Inl e | Inr ss \<Rightarrow> Inr (join_strings sep ss))"

section \<open>Chat\<close>

text \<open>
  The conversation part of \<open>processor_config\<close>: the transcript and the log. The log is
  what \<open>json.load\<close> returned, or \<open>{}\<close>.
\<close>

record conversation =
  chat_session :: string
  meta_log :: json

text \<open>
  The functions of \<open>src.processor.conversation.gpt\<close> and \<open>get_from_dict\<close> of
  \<open>src.utils.helpers\<close> are external. \<open>understand\<close>, \<open>converse\<close> and \<open>summarize\<close>
  call the language model (the API key is part of the function); \<open>summarize\<close> takes
  the text, the summary type and the optional user query. \<open>get_from_dict\<close> is the
  null-aware nested lookup, \<open>JNull\<close> when a key is missing. \<open>log_record\<close> is the
  record \<open>message_to_log\<close> builds from the message, its metadata and the response.
\<close>

record llm =
  understand :: "string \<Rightarrow> error + json"
  converse :: "string \<Rightarrow> string \<Rightarrow> error + string"
  summarize :: "string \<Rightarrow> string \<Rightarrow> string option \<Rightarrow> error + string"
  message_to_prompt :: "string \<Rightarrow> string \<Rightarrow> string \<Rightarrow> error + string"
  get_from_dict :: "json \<Rightarrow> string list \<Rightarrow> json"
  log_record :: "string \<Rightarrow> json \<Rightarrow> string \<Rightarrow> json"

text \<open>
  Modelled from the spec: \<open>message_to_log\<close> of \<open>src.processor.conversation.gpt\<close> is
  not part of the sources. The specification: "append the original query + full
  classified-intent metadata + model's response as one record to meta_log["chat"]".
  The log it receives is \<open>meta_log.get('chat', [])\<close>; appending needs a list.
\<close>

definition message_to_log :: "llm \<Rightarrow> string \<Rightarrow> json \<Rightarrow> string \<Rightarrow> json \<Rightarrow> error + json" where
  "message_to_log L q metadata gpt_response conversation_log =
     py_append conversation_log (log_record L q metadata gpt_response)"

text \<open>
  The first half of \<open>chat(q)\<close>, up to the response of the model: classify the intent,
  then answer from the notes or by conversation. The value is the metadata and the
  response.
\<close>

definition chat_answer ::
  "('h, 'r, 'c) backends \<Rightarrow> llm \<Rightarrow> 'h search_models \<Rightarrow> 'c search_config \<Rightarrow>
   conversation \<Rightarrow> string \<Rightarrow> (json \<times> string) comp" where
  "chat_answer B L model cfg conv q =
     (case understand L q of
        Inl e \<Rightarrow> ([Understand q], Inl e)
      | Inr metadata \<Rightarrow>
          if get_from_dict L metadata [''intent'', ''memory-type''] = JStr ''notes'' then
            (let query = get_from_dict L metadata [''intent'', ''query''];
                 (evs, result) = search B model cfg query (Some 1) (Some Notes)
             in case result of
                  Inl e \<Rightarrow> (Understand q # evs, Inl e)
                | Inr result_list \<Rightarrow>
                    (case py_iter result_list of
                       Inl e \<Rightarrow> (Understand q # evs, Inl e)
                     | Inr items \<Rightarrow>
                         (case entries_of items of
                            Inl e \<Rightarrow> (Understand q # evs, Inl e)
                          | Inr bodies \<Rightarrow>
                              (case py_join [CHR 0x0A] bodies of
                                 Inl e \<Rightarrow> (Understand q # evs, Inl e)
                               | Inr collated_result \<Rightarrow>
                                   (Understand q # evs @ [Summarize collated_result ''notes'' (Some q)],
                                    case summarize L collated_result ''notes'' (Some q) of
                                      Inl e \<Rightarrow> Inl e
                                    | Inr gpt_response \<Rightarrow> Inr (metadata, gpt_response))))))
          else
            ([Understand q, Converse q (chat_session conv)],
             case converse L q (chat_session conv) of
               Inl e \<Rightarrow> Inl e
             | Inr gpt_response \<Rightarrow> Inr (metadata, gpt_response)))"

text \<open>
  The second half: the two assignments that update the conversation history. The right
  side of each is evaluated before its assignment, so an exception leaves the target
  as it was; the transcript is assigned before the log.
\<close>

definition chat_log ::
  "llm \<Rightarrow> conversation \<Rightarrow> string \<Rightarrow> json \<Rightarrow> string \<Rightarrow> error option \<times> conversation" where
  "chat_log L conv q metadata gpt_response =
     (case message_to_prompt L q (chat_session conv) gpt_response of
        Inl e \<Rightarrow> (Some e, conv)
      | Inr session' \<Rightarrow>
          (let conv1 = conv\<lparr>chat_session := session'\<rparr> in
           case py_get (meta_log conv) ''chat'' (JList []) of
             Inl e \<Rightarrow> (Some e, conv1)
           | Inr conversation_log \<Rightarrow>
               (case message_to_log L q metadata gpt_response conversation_log of
                  Inl e \<Rightarrow> (Some e, conv1)
                | Inr log' \<Rightarrow>
                    (case py_setitem (meta_log conv1) ''chat'' log' of
                       Inl e \<Rightarrow> (Some e, conv1)
                     | Inr meta' \<Rightarrow> (None, conv1\<lparr>meta_log := meta'\<rparr>)))))"

text \<open>
  \<open>chat(q)\<close>: the events, the exception or the response returned with status ok, and
  the conversation afterwards.
\<close>

definition chat ::
  "('h, 'r, 'c) backends \<Rightarrow> llm \<Rightarrow> 'h search_models \<Rightarrow> 'c search_config \<Rightarrow>
   conversation \<Rightarrow> string \<Rightarrow> event list \<times> (error + string) \<times> conversation" where
  "chat B L model cfg conv q =
     (case chat_answer B L model cfg conv q of
        (evs, Inl e) \<Rightarrow> (evs, Inl e, conv)
      | (evs, Inr (metadata, gpt_response)) \<Rightarrow>
          (case chat_log L conv q metadata gpt_response of
             (Some e, conv') \<Rightarrow> (evs, Inl e, conv')
           | (None, conv') \<Rightarrow> (evs, Inr gpt_response, conv')))"

text \<open>
  A sequence of turns, each with the behaviour of the language model at that turn: the
  conversation afterwards and the number of turns that returned.
\<close>

fun chat_turns ::
  "('h, 'r, 'c) backends \<Rightarrow> 'h search_models \<Rightarrow> 'c search_config \<Rightarrow>
   conversation \<Rightarrow> (llm \<times> string) list \<Rightarrow> conversation \<times> nat" where
  "chat_turns B model cfg conv [] = (conv, 0)"
| "chat_turns B model cfg conv ((L, q) # turns) =
     (case chat B L model cfg conv q of
        (evs, Inl e, conv') \<Rightarrow> chat_turns B model cfg conv' turns
      | (evs, Inr response, conv') \<Rightarrow>
          (case chat_turns B model cfg conv' turns of (conv'', k) \<Rightarrow> (conv'', Suc k)))"

text \<open>The records of \<open>meta_log["chat"]\<close> and of \<open>meta_log["session"]\<close>; none without the key.\<close>

definition log_entries :: "json \<Rightarrow> string \<Rightarrow> json list" where
  "log_entries ml k =
     (case ml of
        JDict kvs \<Rightarrow> (case map_of kvs k of Some (JList xs) \<Rightarrow> xs | _ \<Rightarrow> [])
      | _ \<Rightarrow> [])"

section \<open>Loading and saving the conversation log\<close>

text \<open>
  What the path of the conversation log file names at startup: nothing, something that
  is no regular file, or a regular file, whose reading returns its text or raises.
\<close>

datatype path_state = Missing | NotAFile | RegularFile "error + string"

fun is_file :: "path_state \<Rightarrow> bool" where
  "is_file (RegularFile content) = True"
| "is_file p = False"

text \<open>
  \<open>initialize_processor(config, verbose)\<close>. \<open>conv0\<close> is the conversation
  configuration \<open>create_from_dictionary\<close> (external) returned, \<open>json_loads\<close> the
  parser of the \<open>json\<close> module, which raises on malformed text. An exception ends the
  start of the program: no configuration is returned.
\<close>

definition initialize_processor ::
  "conversation \<Rightarrow> path_state \<Rightarrow> (string \<Rightarrow> error + json) \<Rightarrow> error + conversation" where
  "initialize_processor conv0 conversation_logfile json_loads =
     (if is_file conversation_logfile then
        (case conversation_logfile of
           RegularFile (Inr content) \<Rightarrow>
             (case json_loads content of
                Inl e \<Rightarrow> Inl e
              | Inr loaded \<Rightarrow> Inr (conv0\<lparr>meta_log := loaded\<rparr>))
         | RegularFile (Inl e) \<Rightarrow> Inl e
         | _ \<Rightarrow> Inl (OSError ''open''))
      else Inr (conv0\<lparr>meta_log := JDict [], chat_session := []\<rparr>))"

text \<open>
  The two indexes of the session record, in the order the dictionary display evaluates
  them (after the summary): the end of the last session record, with
  \<open>[{"session-end": 0}]\<close> as the default of \<open>get\<close>, and the length of the chat log.
\<close>

definition session_start :: "json \<Rightarrow> error + json" where
  "session_start conversation_log =
     (case py_get conversation_log ''session'' (JList [JDict [(''session-end'', JInt 0)]]) of
        Inl e \<Rightarrow> Inl e
      | Inr sessions \<Rightarrow>
          (case py_last sessions of
             Inl e \<Rightarrow> Inl e
           | Inr s \<Rightarrow> py_item s ''session-end''))"

definition session_end :: "json \<Rightarrow> error + json" where
  "session_end conversation_log =
     (case py_item conversation_log ''chat'' of
        Inl e \<Rightarrow> Inl e
      | Inr c \<Rightarrow> (case py_len c of Inl e \<Rightarrow> Inl e | Inr n \<Rightarrow> Inr (JInt (int n))))"

text \<open>Appending the session record to the list under \<open>"session"\<close>, or creating the list.\<close>

definition add_session :: "json \<Rightarrow> json \<Rightarrow> error + json" where
  "add_session conversation_log session =
     (if py_contains conversation_log ''session'' then
        (case py_item conversation_log ''session'' of
           Inl e \<Rightarrow> Inl e
         | Inr sessions \<Rightarrow>
             (case py_append sessions session of
                Inl e \<Rightarrow> Inl e
              | Inr sessions' \<Rightarrow> py_setitem conversation_log ''session'' sessions'))
      else py_setitem conversation_log ''session'' (JList [session]))"

text \<open>
  \<open>shutdown_event()\<close>. \<open>write_logfile\<close> opens the log file for writing and dumps the
  log into it; it returns the exception raised, if any. The event \<open>WriteLog\<close> is the
  attempt to write.
\<close>

definition shutdown_event ::
  "llm \<Rightarrow> (json \<Rightarrow> error option) \<Rightarrow> conversation \<Rightarrow> conversation proc" where
  "shutdown_event L write_logfile conv =
     (if \<not> truthy (meta_log conv) then ([], None, conv)
      else
        (let call = Summarize (chat_session conv) ''chat'' None in
         case summarize L (chat_session conv) ''chat'' None of
           Inl e \<Rightarrow> ([call], Some e, conv)
         | Inr summary \<Rightarrow>
             (case session_start (meta_log conv) of
                Inl e \<Rightarrow> ([call], Some e, conv)
              | Inr start \<Rightarrow>
                  (case session_end (meta_log conv) of
                     Inl e \<Rightarrow> ([call], Some e, conv)
                   | Inr stop \<Rightarrow>
                       (case add_session (meta_log conv)
                               (JDict [(''summary'', JStr summary),
                                       (''session-start'', start),
                                       (''session-end'', stop)]) of
                          Inl e \<Rightarrow> ([call], Some e, conv)
                        | Inr log' \<Rightarrow>
                            ([call, WriteLog log'], write_logfile log',
                             conv\<lparr>meta_log := log'\<rparr>))))))"

text \<open>A field of a record of the log.\<close>

definition field :: "json \<Rightarrow> string \<Rightarrow> json option" where
  "field r k = (case r of JDict kvs \<Rightarrow> map_of kvs k | _ \<Rightarrow> None)"

text \<open>
  The range of a session record, and the chain of ranges the session list should be:
  each range starts where the one before ended (the first at \<open>lo\<close>), none ends before
  it starts, and the last ends at \<open>hi\<close> at most.
\<close>

definition session_range :: "json \<Rightarrow> (int \<times> int) option" where
  "session_range r =
     (case (field r ''session-start'', field r ''session-end'') of
        (Some (JInt a), Some (JInt b)) \<Rightarrow> Some (a, b)
      | _ \<Rightarrow> None)"

fun ranges_chain :: "int \<Rightarrow> json list \<Rightarrow> int \<Rightarrow> bool" where
  "ranges_chain lo [] hi = (lo \<le> hi)"
| "ranges_chain lo (r # rs) hi =
     (case session_range r of
        None \<Rightarrow> False
      | Some (a, b) \<Rightarrow> a = lo \<and> a \<le> b \<and> ranges_chain b rs hi)"

text \<open>
  A log as the program itself builds it from \<open>{}\<close>: a dictionary, with a list under
  \<open>"chat"\<close> as soon as it is not empty, and under \<open>"session"\<close>, if the key is there,
  a non-empty list of records whose ranges chain from 0 up to the length of the chat
  log at most.
\<close>

definition wf_log :: "json \<Rightarrow> bool" where
  "wf_log ml =
     (case ml of
        JDict kvs \<Rightarrow>
          (kvs = [] \<or>
           (case map_of kvs ''chat'' of
              Some (JList cs) \<Rightarrow>
                (case map_of kvs ''session'' of
                   None \<Rightarrow> True
                 | Some (JList rs) \<Rightarrow> rs \<noteq> [] \<and> ranges_chain 0 rs (int (length cs))
                 | Some v \<Rightarrow> False)
            | _ \<Rightarrow> False))
      | _ \<Rightarrow> False)"

text \<open>Where the chain of the ranges of a session list ends: the end of its last range.\<close>

fun chain_end :: "int \<Rightarrow> json list \<Rightarrow> int" where
  "chain_end lo [] = lo"
| "chain_end lo (r # rs) = chain_end (case session_range r of Some (a, b) \<Rightarrow> b | None \<Rightarrow> lo) rs"

text \<open>
  The shutdown can build its session record: the log is not empty, the summarizer
  returns, and the two indexes are computed.
\<close>

definition finalizes :: "llm \<Rightarrow> conversation \<Rightarrow> bool" where
  "finalizes L conv =
     (truthy (meta_log conv)
      \<and> \<not> isl (summarize L (chat_session conv) ''chat'' None)
      \<and> \<not> isl (session_start (meta_log conv))
      \<and> \<not> isl (session_end (meta_log conv)))"

section \<open>Properties of search\<close>

lemma search_refines_route:
  assumes "q \<noteq> JNull" "q \<noteq> JStr []"
  shows "search B model cfg q n t = route_spec B model cfg q n t"
  using assms
  by (cases t)
     (auto simp: search_def route_spec_def first_backend_def type_matches_def
                 invoke_backend_def
           split: sum.splits option.splits)

lemma invoke_backend_queried:
  "queried (fst (invoke_backend B cfg ty h q n)) = [ty]"
  by (cases ty) (auto simp: invoke_backend_def split: sum.splits option.splits)

lemma invoke_backend_events:
  "ev \<in> set (fst (invoke_backend B cfg ty h q n)) \<Longrightarrow> event_type ev = Some ty"
  by (cases ty) (auto simp: invoke_backend_def split: sum.splits option.splits)

lemma invoke_backend_collated:
  "backend_query B ty q n h = Inr hits \<Longrightarrow>
   snd (invoke_backend B cfg ty h q n) = snd (backend_collate B cfg ty hits h n)"
  by (auto simp: invoke_backend_def split: prod.splits)

lemma first_backend_None:
  "first_backend t model = None \<Longrightarrow> route_spec B model cfg q n t = ([], Inr (JDict []))"
  by (simp add: route_spec_def)

subsection \<open>Concrete collaborators for the examples\<close>

text \<open>
  Backends whose handles are numbers and whose hits are lists of numbers: a query
  returns the handle as its only hit, collation returns one record per hit.
\<close>

definition demo_backends :: "(nat, nat list, string) backends" where
  "demo_backends =
     \<lparr>asymmetric_query = (\<lambda>q h. Inr [h]),
      asymmetric_collate = (\<lambda>hits h n. Inr (JList (map (\<lambda>i. JDict [(''Entry'', JStr ''note'')]) hits))),
      asymmetric_setup = (\<lambda>c r. Inr (length c)),
      ledger_query = (\<lambda>q h. Inr [h]),
      ledger_collate = (\<lambda>hits h n. Inr (JList (map (\<lambda>i. JDict [(''Entry'', JStr ''bill'')]) hits))),
      ledger_setup = (\<lambda>c r. Inl (BackendError ''no ledger'')),
      image_query = (\<lambda>q n h. Inr [h]),
      image_collate = (\<lambda>hits h c n. Inr (JList (map (\<lambda>i. JDict [(''Entry'', JStr c)]) hits))),
      image_setup = (\<lambda>c r. Inr (length c))\<rparr>"

definition demo_models :: "nat search_models" where
  "demo_models = \<lparr>notes_search = None, music_search = Some 2, ledger_search = Some 3, image_search = None\<rparr>"

definition pics_config :: "string search_config" where
  "pics_config = \<lparr>notes_cfg = None, music_cfg = Some ''songs'', ledger_cfg = None, image_cfg = Some ''pics''\<rparr>"

definition demo_config :: "string search_config" where
  "demo_config = \<lparr>notes_cfg = None, music_cfg = Some ''songs'', ledger_cfg = Some ''bills'', image_cfg = None\<rparr>"

section \<open>Claims about search\<close>

text \<open>
  C1. For every non-empty query, every type filter and every configuration of present
  and absent handles, search invokes at most one backend: it is the routing of the
  specification, which takes the first type in the order Notes, Music, Ledger, Image
  whose filter matches and whose handle is present. The only backend queried is that
  one, every event belongs to it, the value is what its collation returned, and
  without such a type the result is the empty dictionary with no backend invoked.
\<close>

theorem search_first_matching_backend:
  assumes "q \<noteq> JNull" and "q \<noteq> JStr []"
  shows "search B model cfg q n t = route_spec B model cfg q n t
       \<and> queried (fst (search B model cfg q n t))
           = (case first_backend t model of None \<Rightarrow> [] | Some ty \<Rightarrow> [ty])
       \<and> length (queried (fst (search B model cfg q n t))) \<le> 1
       \<and> (\<forall>ev \<in> set (fst (search B model cfg q n t)).
             event_type ev \<noteq> None \<and> event_type ev = first_backend t model)
       \<and> (\<forall>ty hits. first_backend t model = Some ty
             \<and> backend_query B ty q n (the (handle_of model ty)) = Inr hits
             \<longrightarrow> snd (search B model cfg q n t)
                 = snd (backend_collate B cfg ty hits (the (handle_of model ty)) n))
       \<and> (first_backend t model = None \<longrightarrow> search B model cfg q n t = ([], Inr (JDict [])))"
proof -
  have eq: "search B model cfg q n t = route_spec B model cfg q n t"
    using assms by (rule search_refines_route)
  have qs: "queried (fst (route_spec B model cfg q n t))
              = (case first_backend t model of None \<Rightarrow> [] | Some ty \<Rightarrow> [ty])"
    by (simp add: route_spec_def invoke_backend_queried split: option.splits)
  have evs: "\<forall>ev \<in> set (fst (route_spec B model cfg q n t)).
               event_type ev \<noteq> None \<and> event_type ev = first_backend t model"
    by (auto simp: route_spec_def split: option.splits dest: invoke_backend_events)
  have col: "\<forall>ty hits. first_backend t model = Some ty
               \<and> backend_query B ty q n (the (handle_of model ty)) = Inr hits
               \<longrightarrow> snd (route_spec B model cfg q n t)
                   = snd (backend_collate B cfg ty hits (the (handle_of model ty)) n)"
    by (auto simp: route_spec_def invoke_backend_collated)
  have none: "first_backend t model = None \<longrightarrow> route_spec B model cfg q n t = ([], Inr (JDict []))"
    by (simp add: first_backend_None)
  have len: "length (queried (fst (route_spec B model cfg q n t))) \<le> 1"
    by (simp add: qs split: option.splits)
  show ?thesis
    unfolding eq using qs len evs col none by blast
qed

theorem search_first_matching_backend_witness:
  "JStr ''coffee'' \<noteq> JNull \<and> JStr ''coffee'' \<noteq> JStr []
   \<and> first_backend None demo_models = Some Music
   \<and> queried (fst (search demo_backends demo_models demo_config (JStr ''coffee'') (Some 5) None)) = [Music]
   \<and> snd (search demo_backends demo_models demo_config (JStr ''coffee'') (Some 5) None)
       = Inr (JList [JDict [(''Entry'', JStr ''note'')]])"
proof -
  have fb: "first_backend None demo_models = Some Music"
    by (simp add: first_backend_def type_matches_def demo_models_def)
  have q: "backend_query demo_backends Music (JStr ''coffee'') (Some 5) (the (handle_of demo_models Music)) = Inr [2]"
    by (simp add: demo_backends_def demo_models_def)
  have c: "snd (backend_collate demo_backends demo_config Music [2] (the (handle_of demo_models Music)) (Some 5))
             = Inr (JList [JDict [(''Entry'', JStr ''note'')]])"
    by (simp add: demo_backends_def)
  have h1: "JStr ''coffee'' \<noteq> JNull" and h2: "JStr ''coffee'' \<noteq> JStr []"
    by simp_all
  note T = search_first_matching_backend
             [of "JStr ''coffee''" demo_backends demo_models demo_config "Some 5" None, OF h1 h2]
  from T have "queried (fst (search demo_backends demo_models demo_config (JStr ''coffee'') (Some 5) None))
                 = (case first_backend None demo_models of None \<Rightarrow> [] | Some ty \<Rightarrow> [ty])"
    by (rule conjunct1 [OF conjunct2])
  then have a: "queried (fst (search demo_backends demo_models demo_config (JStr ''coffee'') (Some 5) None)) = [Music]"
    by (simp only: fb option.case)
  from T have "\<forall>ty hits. first_backend None demo_models = Some ty
             \<and> backend_query demo_backends ty (JStr ''coffee'') (Some 5) (the (handle_of demo_models ty)) = Inr hits
             \<longrightarrow> snd (search demo_backends demo_models demo_config (JStr ''coffee'') (Some 5) None)
                 = snd (backend_collate demo_backends demo_config ty hits (the (handle_of demo_models ty)) (Some 5))"
    by blast
  with fb q have "snd (search demo_backends demo_models demo_config (JStr ''coffee'') (Some 5) None)
                 = snd (backend_collate demo_backends demo_config Music [2] (the (handle_of demo_models Music)) (Some 5))"
    by blast
  with c have b: "snd (search demo_backends demo_models demo_config (JStr ''coffee'') (Some 5) None)
                 = Inr (JList [JDict [(''Entry'', JStr ''note'')]])"
    by (simp only:)
  show ?thesis
    using h1 h2 fb a b by blast
qed

text \<open>
  C2. For every count and every type filter, search with an empty or absent query
  returns the empty result and invokes no backend: it causes no event at all and
  returns a value, not an exception.
\<close>

theorem search_empty_query:
  "search B model cfg (JStr []) n t = ([], Inr (JDict []))
   \<and> search B model cfg JNull n t = ([], Inr (JDict []))"
  by (simp add: search_def)

section \<open>Claims about regeneration\<close>

lemmas regen_defs = regenerate_def then_step_def regenerate_notes_def regenerate_music_def
  regenerate_ledger_def regenerate_image_def

lemma regenerate_frame:
  assumes "regenerate B cfg t model = (evs, out, model')"
      and "\<not> (type_matches t ty \<and> config_of cfg ty \<noteq> None)"
  shows "handle_of model' ty = handle_of model ty"
  using assms
  by (cases ty; cases t)
     (auto simp: regen_defs type_matches_def split: if_splits sum.splits option.splits prod.splits)

lemma regenerate_rebuilt_subset:
  assumes "regenerate B cfg t model = (evs, out, model')"
  shows "set (rebuilt evs) \<subseteq> {ty. type_matches t ty \<and> config_of cfg ty \<noteq> None}"
  using assms
  by (cases t)
     (auto simp: regen_defs type_matches_def split: if_splits sum.splits option.splits prod.splits)

lemma regenerate_rebuilt:
  assumes "regenerate B cfg t model = (evs, None, model')"
  shows "rebuilt evs
           = filter (\<lambda>ty. type_matches t ty \<and> config_of cfg ty \<noteq> None) [Notes, Music, Ledger, Image]"
  using assms
  by (cases t)
     (auto simp: regen_defs type_matches_def split: if_splits sum.splits option.splits prod.splits)

lemma regenerate_new_handle:
  assumes "regenerate B cfg t model = (evs, None, model')"
      and "type_matches t ty" "config_of cfg ty = Some c"
  shows "handle_of model' ty \<noteq> None \<and> backend_setup B ty c True = Inr (the (handle_of model' ty))"
  using assms
  by (cases ty; cases t)
     (auto simp: regen_defs type_matches_def split: if_splits sum.splits option.splits prod.splits)

lemma regenerate_unconfigured:
  assumes "config_of cfg ty = None"
  shows "regenerate B cfg (Some ty) model = ([], None, model)"
  using assms
  by (cases ty) (auto simp: regen_defs)

lemma handles_configuredD:
  "handles_configured cfg model \<Longrightarrow> config_of cfg ty = None \<Longrightarrow> handle_of model ty = None"
  by (cases ty) (auto simp: handles_configured_def)

lemma regenerate_handles_configured:
  assumes "regenerate B cfg t model = (evs, out, model')" "handles_configured cfg model"
  shows "handles_configured cfg model'"
  using assms
  by (cases t)
     (auto simp: regen_defs handles_configured_def split: if_splits sum.splits option.splits prod.splits)

text \<open>
  The registry the program starts with has handles for configured types only, whether
  the initial setup returned or raised.
\<close>

lemma initialize_search_handles_configured:
  assumes "initialize_search B cfg r = (evs, out, model)"
  shows "handles_configured cfg model"
  using assms
  by (auto simp: initialize_search_def then_step_def handles_configured_def empty_models_def
       split: if_splits sum.splits option.splits prod.splits)

text \<open>The code is the regeneration of the specification.\<close>

lemma regenerate_refines_spec:
  "regenerate B cfg t model = regenerate_spec B cfg t model"
proof (cases t)
  case None
  then show ?thesis
    by (cases "notes_cfg cfg"; cases "music_cfg cfg"; cases "ledger_cfg cfg"; cases "image_cfg cfg")
       (auto simp: regen_defs regenerate_spec_def type_matches_def split: sum.splits)
next
  case (Some ty)
  then show ?thesis
    by (cases ty; cases "config_of cfg ty")
       (auto simp: regen_defs regenerate_spec_def type_matches_def split: sum.splits)
qed

lemma rebuild_each_returns:
  "\<forall>ty \<in> set tys. \<not> isl (backend_setup B ty (the (config_of cfg ty)) True)
   \<Longrightarrow> fst (snd (rebuild_each B cfg tys model)) = None"
proof (induction tys arbitrary: model)
  case Nil
  then show ?case by simp
next
  case (Cons ty tys)
  from Cons.prems obtain h where h: "backend_setup B ty (the (config_of cfg ty)) True = Inr h"
    by (cases "backend_setup B ty (the (config_of cfg ty)) True") auto
  from Cons.prems have "\<forall>ty \<in> set tys. \<not> isl (backend_setup B ty (the (config_of cfg ty)) True)"
    by simp
  from Cons.IH [OF this, of "set_handle model ty h"] h show ?case
    by (cases "rebuild_each B cfg tys (set_handle model ty h)") simp
qed

lemma regenerate_returns:
  assumes "\<forall>ty c. type_matches t ty \<and> config_of cfg ty = Some c
             \<longrightarrow> \<not> isl (backend_setup B ty c True)"
  shows "fst (snd (regenerate B cfg t model)) = None"
  unfolding regenerate_refines_spec regenerate_spec_def
proof (rule rebuild_each_returns, rule ballI)
  fix ty
  assume "ty \<in> set (filter (\<lambda>ty. type_matches t ty \<and> config_of cfg ty \<noteq> None)
                       [Notes, Music, Ledger, Image])"
  then have "type_matches t ty" and "config_of cfg ty \<noteq> None"
    unfolding set_filter by blast+
  then obtain c where "config_of cfg ty = Some c" by auto
  with assms \<open>type_matches t ty\<close> show "\<not> isl (backend_setup B ty (the (config_of cfg ty)) True)"
    by simp
qed

text \<open>
  C8. For every type filter, regenerate is the regeneration of the specification: it
  sets up the content types that match the filter (all types when the filter is
  unset) and are configured, in the order Notes, Music, Ledger, Image, and replaces
  each handle by what the setup of that type returned; it returns when these setups
  return, and it has then set up exactly those types. It sets up no other type, and
  the handle of every type that does not match the filter, or is not configured, is
  left as it was, also when a setup raises. Regenerating an unconfigured type changes
  nothing and calls no setup, and its handle stays unset: an unset handle of an
  unconfigured type stays unset, and in a registry with handles for configured types
  only (the registry of the initial setup) every unconfigured type has none
  afterwards.
\<close>

theorem regenerate_only_matching_configured:
  assumes "regenerate B cfg t model = (evs, out, model')"
  shows "(\<forall>ty. \<not> (type_matches t ty \<and> config_of cfg ty \<noteq> None)
               \<longrightarrow> handle_of model' ty = handle_of model ty)
       \<and> set (rebuilt evs) \<subseteq> {ty. type_matches t ty \<and> config_of cfg ty \<noteq> None}
       \<and> (out = None \<longrightarrow>
            rebuilt evs
              = filter (\<lambda>ty. type_matches t ty \<and> config_of cfg ty \<noteq> None) [Notes, Music, Ledger, Image]
            \<and> (\<forall>ty c. type_matches t ty \<and> config_of cfg ty = Some c
                  \<longrightarrow> handle_of model' ty \<noteq> None
                      \<and> backend_setup B ty c True = Inr (the (handle_of model' ty))))
       \<and> (\<forall>ty. t = Some ty \<and> config_of cfg ty = None
               \<longrightarrow> evs = [] \<and> out = None \<and> model' = model)
       \<and> (\<forall>ty. config_of cfg ty = None \<and> handle_of model ty = None
               \<longrightarrow> handle_of model' ty = None)
       \<and> (handles_configured cfg model
            \<longrightarrow> handles_configured cfg model'
                \<and> (\<forall>ty. config_of cfg ty = None \<longrightarrow> handle_of model' ty = None))
       \<and> regenerate B cfg t model = regenerate_spec B cfg t model
       \<and> ((\<forall>ty c. type_matches t ty \<and> config_of cfg ty = Some c
                \<longrightarrow> \<not> isl (backend_setup B ty c True))
            \<longrightarrow> out = None)"
proof -
  have frame: "\<forall>ty. \<not> (type_matches t ty \<and> config_of cfg ty \<noteq> None)
                 \<longrightarrow> handle_of model' ty = handle_of model ty"
    using regenerate_frame [OF assms] by blast
  have sub: "set (rebuilt evs) \<subseteq> {ty. type_matches t ty \<and> config_of cfg ty \<noteq> None}"
    by (rule regenerate_rebuilt_subset [OF assms])
  have ok: "out = None \<longrightarrow>
            rebuilt evs
              = filter (\<lambda>ty. type_matches t ty \<and> config_of cfg ty \<noteq> None) [Notes, Music, Ledger, Image]
            \<and> (\<forall>ty c. type_matches t ty \<and> config_of cfg ty = Some c
                  \<longrightarrow> handle_of model' ty \<noteq> None
                      \<and> backend_setup B ty c True = Inr (the (handle_of model' ty)))"
  proof
    assume "out = None"
    with assms have r: "regenerate B cfg t model = (evs, None, model')" by simp
    show "rebuilt evs
              = filter (\<lambda>ty. type_matches t ty \<and> config_of cfg ty \<noteq> None) [Notes, Music, Ledger, Image]
            \<and> (\<forall>ty c. type_matches t ty \<and> config_of cfg ty = Some c
                  \<longrightarrow> handle_of model' ty \<noteq> None
                      \<and> backend_setup B ty c True = Inr (the (handle_of model' ty)))"
      using regenerate_rebuilt [OF r] regenerate_new_handle [OF r] by blast
  qed
  have unconf: "\<forall>ty. t = Some ty \<and> config_of cfg ty = None
                  \<longrightarrow> evs = [] \<and> out = None \<and> model' = model"
    using assms by (auto simp: regenerate_unconfigured)
  have unset: "\<forall>ty. config_of cfg ty = None \<and> handle_of model ty = None
                 \<longrightarrow> handle_of model' ty = None"
    using frame by auto
  have inv: "handles_configured cfg model
            \<longrightarrow> handles_configured cfg model'
                \<and> (\<forall>ty. config_of cfg ty = None \<longrightarrow> handle_of model' ty = None)"
    using regenerate_handles_configured [OF assms] handles_configuredD by blast
  have returns: "(\<forall>ty c. type_matches t ty \<and> config_of cfg ty = Some c
                \<longrightarrow> \<not> isl (backend_setup B ty c True))
            \<longrightarrow> out = None"
    using regenerate_returns [of t cfg B model] assms by auto
  show ?thesis
    using frame sub ok unconf unset inv regenerate_refines_spec returns by blast
qed

theorem regenerate_only_matching_configured_witness:
  "regenerate demo_backends demo_config (Some Music) demo_models
     = ([Setup Music], None, demo_models\<lparr>music_search := Some 5\<rparr>)
   \<and> set (rebuilt [Setup Music])
       \<subseteq> {ty. type_matches (Some Music) ty \<and> config_of demo_config ty \<noteq> None}
   \<and> handle_of (demo_models\<lparr>music_search := Some 5\<rparr>) Ledger = handle_of demo_models Ledger
   \<and> regenerate demo_backends pics_config None demo_models
     = ([Setup Music, Setup Image], None, demo_models\<lparr>music_search := Some 5, image_search := Some 4\<rparr>)
   \<and> \<not> isl (backend_setup demo_backends Music ''songs'' True)
   \<and> \<not> isl (backend_setup demo_backends Image ''pics'' True)
   \<and> rebuilt [Setup Music, Setup Image]
       = filter (\<lambda>ty. type_matches None ty \<and> config_of pics_config ty \<noteq> None) [Notes, Music, Ledger, Image]
   \<and> regenerate_spec demo_backends pics_config None demo_models
     = ([Setup Music, Setup Image], None, demo_models\<lparr>music_search := Some 5, image_search := Some 4\<rparr>)"
proof -
  have r: "regenerate demo_backends demo_config (Some Music) demo_models
             = ([Setup Music], None, demo_models\<lparr>music_search := Some 5\<rparr>)"
    by (simp add: regen_defs demo_backends_def demo_config_def demo_models_def)
  note T = regenerate_only_matching_configured [OF r]
  have nm: "\<not> (type_matches (Some Music) Ledger \<and> config_of demo_config Ledger \<noteq> None)"
    by (simp add: type_matches_def)
  from T have a: "set (rebuilt [Setup Music])
       \<subseteq> {ty. type_matches (Some Music) ty \<and> config_of demo_config ty \<noteq> None}"
    by (rule conjunct1 [OF conjunct2])
  from T have "\<forall>ty. \<not> (type_matches (Some Music) ty \<and> config_of demo_config ty \<noteq> None)
               \<longrightarrow> handle_of (demo_models\<lparr>music_search := Some 5\<rparr>) ty = handle_of demo_models ty"
    by (rule conjunct1)
  with nm have b: "handle_of (demo_models\<lparr>music_search := Some 5\<rparr>) Ledger = handle_of demo_models Ledger"
    by blast
  have r': "regenerate demo_backends pics_config None demo_models
     = ([Setup Music, Setup Image], None, demo_models\<lparr>music_search := Some 5, image_search := Some 4\<rparr>)"
    by (simp add: regen_defs demo_backends_def pics_config_def demo_models_def)
  note T' = regenerate_only_matching_configured [OF r']
  have s: "\<forall>ty c. type_matches None ty \<and> config_of pics_config ty = Some c
          \<longrightarrow> \<not> isl (backend_setup demo_backends ty c True)"
  proof (intro allI impI)
    fix ty c
    assume "type_matches None ty \<and> config_of pics_config ty = Some c"
    then show "\<not> isl (backend_setup demo_backends ty c True)"
      by (cases ty) (simp_all add: pics_config_def demo_backends_def)
  qed
  from T' have c: "rebuilt [Setup Music, Setup Image]
       = filter (\<lambda>ty. type_matches None ty \<and> config_of pics_config ty \<noteq> None) [Notes, Music, Ledger, Image]"
    by blast
  from T' r' have d: "regenerate_spec demo_backends pics_config None demo_models
     = ([Setup Music, Setup Image], None, demo_models\<lparr>music_search := Some 5, image_search := Some 4\<rparr>)"
    by simp
  have s1: "\<not> isl (backend_setup demo_backends Music ''songs'' True)"
    and s2: "\<not> isl (backend_setup demo_backends Image ''pics'' True)"
    by (simp_all add: demo_backends_def)
  show ?thesis using r a b r' s1 s2 c d by blast
qed

section \<open>Properties of the log\<close>

subsection \<open>Chains of session ranges\<close>


lemma ranges_chain_mono:
  "ranges_chain lo rs hi \<Longrightarrow> hi \<le> hi' \<Longrightarrow> ranges_chain lo rs hi'"
  by (induction rs arbitrary: lo) (auto split: option.splits)

lemma ranges_chain_end_le:
  "ranges_chain lo rs hi \<Longrightarrow> chain_end lo rs \<le> hi"
  by (induction rs arbitrary: lo) (auto split: option.splits)

lemma ranges_chain_snoc:
  "ranges_chain lo rs hi \<Longrightarrow> session_range r = Some (chain_end lo rs, hi)
   \<Longrightarrow> ranges_chain lo (rs @ [r]) hi"
  by (induction rs arbitrary: lo) (auto split: option.splits dest: ranges_chain_end_le)

lemma session_range_field:
  "session_range r = Some (a, b) \<Longrightarrow> field r ''session-end'' = Some (JInt b)"
  by (auto simp: session_range_def split: option.splits json.splits)

lemma ranges_chain_last_end:
  "ranges_chain lo rs hi \<Longrightarrow> rs \<noteq> [] \<Longrightarrow>
   field (last rs) ''session-end'' = Some (JInt (chain_end lo rs))"
proof (induction rs arbitrary: lo)
  case Nil then show ?case by simp
next
  case (Cons r rs)
  then show ?case
    by (cases rs) (auto split: option.splits dest: session_range_field)
qed

lemma py_item_field: "py_item r k = Inr v \<longleftrightarrow> field r k = Some v"
  by (cases r) (auto simp: field_def split: option.splits)

subsection \<open>What a shutdown does\<close>

lemma session_start_cases:
  assumes "session_start ml = Inr a"
  shows "\<exists>kvs. ml = JDict kvs \<and>
          ((map_of kvs ''session'' = None \<and> a = JInt 0)
           \<or> (\<exists>xs. map_of kvs ''session'' = Some (JList xs) \<and> xs \<noteq> []
                 \<and> field (last xs) ''session-end'' = Some a))"
proof (cases ml)
  case (JDict kvs)
  show ?thesis
  proof (cases "map_of kvs ''session''")
    case None
    with JDict assms show ?thesis by (simp add: session_start_def)
  next
    case (Some v)
    with JDict assms show ?thesis
      by (cases v) (auto simp: session_start_def py_item_field split: if_splits)
  qed
qed (use assms in \<open>simp_all add: session_start_def\<close>)

lemma session_end_cases:
  assumes "session_end ml = Inr b"
  shows "\<exists>c n. py_item ml ''chat'' = Inr c \<and> py_len c = Inr n \<and> b = JInt (int n)"
  using assms by (auto simp: session_end_def split: sum.splits)

lemma add_session_dict:
  assumes "map_of kvs ''session'' = None \<or> (\<exists>xs. map_of kvs ''session'' = Some (JList xs))"
  shows "add_session (JDict kvs) r
           = Inr (JDict (AList.update ''session'' (JList (log_entries (JDict kvs) ''session'' @ [r])) kvs))"
  using assms by (auto simp: add_session_def log_entries_def)

lemma log_entries_update_same:
  "log_entries (JDict (AList.update k (JList xs) kvs)) k = xs"
  by (simp add: log_entries_def update_conv')

lemma py_item_update_other:
  "k' \<noteq> k \<Longrightarrow> py_item (JDict (AList.update k v kvs)) k' = py_item (JDict kvs) k'"
  by (simp add: update_conv')

lemma shutdown_finalizes:
  assumes "finalizes L conv"
  shows "\<exists>kvs s a b. meta_log conv = JDict kvs
           \<and> summarize L (chat_session conv) ''chat'' None = Inr s
           \<and> session_start (meta_log conv) = Inr a
           \<and> session_end (meta_log conv) = Inr b
           \<and> shutdown_event L W conv
               = (let ml' = JDict (AList.update ''session''
                      (JList (log_entries (meta_log conv) ''session''
                         @ [JDict [(''summary'', JStr s), (''session-start'', a), (''session-end'', b)]])) kvs)
                  in ([Summarize (chat_session conv) ''chat'' None, WriteLog ml'], W ml',
                      conv\<lparr>meta_log := ml'\<rparr>))"
proof -
  from assms obtain s a b where
    t: "truthy (meta_log conv)" and s: "summarize L (chat_session conv) ''chat'' None = Inr s"
    and a: "session_start (meta_log conv) = Inr a" and b: "session_end (meta_log conv) = Inr b"
    unfolding finalizes_def
    by (cases "summarize L (chat_session conv) ''chat'' None"; cases "session_start (meta_log conv)";
        cases "session_end (meta_log conv)") auto
  from session_start_cases [OF a] obtain kvs where
    k: "meta_log conv = JDict kvs"
    and c: "map_of kvs ''session'' = None \<or> (\<exists>xs. map_of kvs ''session'' = Some (JList xs))"
    by blast
  have "shutdown_event L W conv
               = (let ml' = JDict (AList.update ''session''
                      (JList (log_entries (meta_log conv) ''session''
                         @ [JDict [(''summary'', JStr s), (''session-start'', a), (''session-end'', b)]])) kvs)
                  in ([Summarize (chat_session conv) ''chat'' None, WriteLog ml'], W ml',
                      conv\<lparr>meta_log := ml'\<rparr>))"
    using t s a b k add_session_dict [OF c]
    by (simp add: shutdown_event_def Let_def)
  with s a b k show ?thesis by blast
qed

lemma shutdown_not_finalizes:
  assumes "\<not> finalizes L conv"
  shows "shutdown_event L W conv = ([], None, conv)
       \<or> (\<exists>e. shutdown_event L W conv = ([Summarize (chat_session conv) ''chat'' None], Some e, conv))"
  using assms
  by (auto simp: finalizes_def shutdown_event_def Let_def split: sum.splits)

subsection \<open>What a chat turn does to the log\<close>

lemma log_entries_update_other:
  "k' \<noteq> k \<Longrightarrow> log_entries (JDict (AList.update k v kvs)) k' = log_entries (JDict kvs) k'"
  by (simp add: log_entries_def update_conv')

lemma chat_log_completed:
  assumes "chat_log L conv q md r = (None, conv')"
  shows "\<exists>kvs s'. meta_log conv = JDict kvs
           \<and> message_to_prompt L q (chat_session conv) r = Inr s'
           \<and> conv' = conv\<lparr>chat_session := s',
                 meta_log := JDict (AList.update ''chat''
                   (JList (log_entries (meta_log conv) ''chat'' @ [log_record L q md r])) kvs)\<rparr>"
proof (cases "meta_log conv")
  case (JDict kvs)
  show ?thesis
  proof (cases "map_of kvs ''chat''")
    case None
    with JDict assms show ?thesis
      by (auto simp: chat_log_def Let_def message_to_log_def log_entries_def split: sum.splits)
  next
    case (Some v)
    with JDict assms show ?thesis
      by (cases v)
         (auto simp: chat_log_def Let_def message_to_log_def log_entries_def split: sum.splits)
  qed
qed (use assms in \<open>auto simp: chat_log_def Let_def split: sum.splits\<close>)

lemma chat_log_failed:
  assumes "chat_log L conv q md r = (Some e, conv')"
  shows "meta_log conv' = meta_log conv"
  using assms
  by (auto simp: chat_log_def Let_def split: sum.splits)


lemma chat_failed:
  assumes "chat B L model cfg conv q = (evs, Inl e, conv')"
  shows "meta_log conv' = meta_log conv"
  using assms
  by (auto simp: chat_def split: prod.splits sum.splits option.splits dest: chat_log_failed)

lemma chat_completed:
  assumes "chat B L model cfg conv q = (evs, Inr r, conv')"
  shows "\<exists>kvs rec. meta_log conv = JDict kvs
           \<and> meta_log conv' = JDict (AList.update ''chat''
                   (JList (log_entries (meta_log conv) ''chat'' @ [rec])) kvs)"
proof -
  from assms obtain md where "chat_log L conv q md r = (None, conv')"
    by (auto simp: chat_def split: prod.splits sum.splits option.splits)
  from chat_log_completed [OF this] show ?thesis by auto
qed



lemma wf_log_empty: "wf_log (JDict [])"
  by (simp add: wf_log_def)

lemma wf_log_chat:
  assumes "wf_log (JDict kvs)"
  shows "wf_log (JDict (AList.update ''chat'' (JList (log_entries (JDict kvs) ''chat'' @ [rec])) kvs))"
proof (cases "kvs = []")
  case True
  then show ?thesis by (simp add: wf_log_def log_entries_def)
next
  case False
  with assms obtain cs where cs: "map_of kvs ''chat'' = Some (JList cs)"
    by (auto simp: wf_log_def split: option.splits json.splits)
  have ne: "AList.update ''chat'' (JList (cs @ [rec])) kvs \<noteq> []"
    using False by (cases kvs) auto
  show ?thesis
    using assms False cs ne
    by (auto simp: wf_log_def log_entries_def update_conv' split: option.splits json.splits
             elim: ranges_chain_mono)
qed

lemma chat_wf_log:
  assumes "chat B L model cfg conv q = (evs, res, conv')" "wf_log (meta_log conv)"
  shows "wf_log (meta_log conv')"
proof (cases res)
  case (Inl e)
  with assms chat_failed show ?thesis by metis
next
  case (Inr r)
  with assms(1) chat_completed obtain kvs rec where
    "meta_log conv = JDict kvs"
    "meta_log conv' = JDict (AList.update ''chat''
                   (JList (log_entries (meta_log conv) ''chat'' @ [rec])) kvs)"
    by blast
  with assms(2) wf_log_chat show ?thesis by simp
qed

subsection \<open>Well-formed logs stay well-formed\<close>

lemma update_not_Nil: "AList.update k v kvs \<noteq> []"
  by (cases kvs) auto

lemma ranges_chain_le: "ranges_chain lo rs hi \<Longrightarrow> lo \<le> hi"
  by (induction rs arbitrary: lo) (fastforce split: option.splits)+

lemma ranges_chain_consecutive:
  "ranges_chain lo rs hi \<Longrightarrow> Suc i < length rs \<Longrightarrow>
   \<exists>a b c. session_range (rs ! i) = Some (a, b) \<and> session_range (rs ! Suc i) = Some (b, c)
           \<and> a \<le> b \<and> b \<le> c \<and> c \<le> hi"
proof (induction rs arbitrary: lo i)
  case Nil
  then show ?case by simp
next
  case (Cons r rs)
  from Cons.prems(1) obtain b where r: "session_range r = Some (lo, b)" "lo \<le> b"
    and rest: "ranges_chain b rs hi"
    by (auto split: option.splits)
  show ?case
  proof (cases i)
    case 0
    with Cons.prems(2) obtain r' rs' where rs: "rs = r' # rs'" by (cases rs) auto
    with rest obtain c where "session_range r' = Some (b, c)" "b \<le> c" "ranges_chain c rs' hi"
      by (auto split: option.splits)
    with r 0 rs ranges_chain_le show ?thesis by fastforce
  next
    case (Suc j)
    with Cons.prems(2) have "Suc j < length rs" by simp
    from Cons.IH [OF rest this] Suc show ?thesis by simp
  qed
qed

lemma wf_log_session_start:
  assumes "wf_log (JDict kvs)" "kvs \<noteq> []"
  shows "session_start (JDict kvs)
           = Inr (JInt (chain_end 0 (log_entries (JDict kvs) ''session'')))"
proof (cases "map_of kvs ''session''")
  case None
  then show ?thesis by (simp add: session_start_def log_entries_def)
next
  case (Some v)
  with assms obtain cs rs where "map_of kvs ''chat'' = Some (JList cs)" and v: "v = JList rs"
    and rs: "rs \<noteq> []" "ranges_chain 0 rs (int (length cs))"
    by (auto simp: wf_log_def split: option.splits json.splits)
  from ranges_chain_last_end [OF rs(2) rs(1)] Some v rs(1) show ?thesis
    by (simp add: session_start_def log_entries_def py_item_field [symmetric])
qed

lemma wf_log_session_end:
  assumes "wf_log (JDict kvs)" "kvs \<noteq> []"
  shows "session_end (JDict kvs) = Inr (JInt (int (length (log_entries (JDict kvs) ''chat''))))"
  using assms
  by (auto simp: wf_log_def session_end_def log_entries_def split: option.splits json.splits)

lemma wf_log_add_session:
  assumes "wf_log (JDict kvs)" "kvs \<noteq> []"
  shows "wf_log (JDict (AList.update ''session''
           (JList (log_entries (JDict kvs) ''session''
              @ [JDict [(''summary'', JStr s),
                        (''session-start'', JInt (chain_end 0 (log_entries (JDict kvs) ''session''))),
                        (''session-end'', JInt (int (length (log_entries (JDict kvs) ''chat''))))]])) kvs))"
proof -
  let ?rs = "log_entries (JDict kvs) ''session''"
  let ?cs = "log_entries (JDict kvs) ''chat''"
  let ?r = "JDict [(''summary'', JStr s), (''session-start'', JInt (chain_end 0 ?rs)),
                   (''session-end'', JInt (int (length ?cs)))]"
  from assms obtain cs where cs: "map_of kvs ''chat'' = Some (JList cs)"
    by (auto simp: wf_log_def split: option.splits json.splits)
  have chain: "ranges_chain 0 ?rs (int (length ?cs))"
    using assms cs
    by (auto simp: wf_log_def log_entries_def split: option.splits json.splits)
  have range: "session_range ?r = Some (chain_end 0 ?rs, int (length ?cs))"
    by (simp add: session_range_def field_def)
  have "ranges_chain 0 (?rs @ [?r]) (int (length ?cs))"
    by (rule ranges_chain_snoc [OF chain range])
  then show ?thesis
    using cs by (simp add: wf_log_def update_conv' update_not_Nil log_entries_def)
qed

lemma shutdown_wf_log:
  assumes "shutdown_event L W conv = (evs, out, conv')" "wf_log (meta_log conv)"
  shows "wf_log (meta_log conv')"
proof (cases "finalizes L conv")
  case False
  from shutdown_not_finalizes [OF False, of W] assms show ?thesis by auto
next
  case True
  from shutdown_finalizes [OF True, of W] obtain kvs s a b where
    k: "meta_log conv = JDict kvs" and a: "session_start (meta_log conv) = Inr a"
    and b: "session_end (meta_log conv) = Inr b"
    and sh: "shutdown_event L W conv
               = (let ml' = JDict (AList.update ''session''
                      (JList (log_entries (meta_log conv) ''session''
                         @ [JDict [(''summary'', JStr s), (''session-start'', a), (''session-end'', b)]])) kvs)
                  in ([Summarize (chat_session conv) ''chat'' None, WriteLog ml'], W ml',
                      conv\<lparr>meta_log := ml'\<rparr>))"
    by blast
  from True k have ne: "kvs \<noteq> []" by (simp add: finalizes_def)
  from assms(2) k have wf: "wf_log (JDict kvs)" by simp
  from a b k wf_log_session_start [OF wf ne] wf_log_session_end [OF wf ne]
  have ab: "a = JInt (chain_end 0 (log_entries (JDict kvs) ''session''))"
           "b = JInt (int (length (log_entries (JDict kvs) ''chat'')))"
    by simp_all
  from sh assms(1) have "meta_log conv' = JDict (AList.update ''session''
                      (JList (log_entries (meta_log conv) ''session''
                         @ [JDict [(''summary'', JStr s), (''session-start'', a), (''session-end'', b)]])) kvs)"
    by (auto simp: Let_def)
  with wf_log_add_session [OF wf ne, of s] ab k show ?thesis by simp
qed

lemma chat_turns_wf_log:
  "chat_turns B model cfg conv turns = (conv', k) \<Longrightarrow> wf_log (meta_log conv)
   \<Longrightarrow> wf_log (meta_log conv')"
proof (induction turns arbitrary: conv conv' k)
  case Nil
  then show ?case by simp
next
  case (Cons turn turns)
  obtain L q where turn: "turn = (L, q)" by (cases turn)
  obtain evs res conv1 where c: "chat B L model cfg conv q = (evs, res, conv1)"
    by (cases "chat B L model cfg conv q")
  from chat_wf_log [OF c Cons.prems(2)] have wf1: "wf_log (meta_log conv1)" .
  from Cons.prems(1) turn c obtain k' where "chat_turns B model cfg conv1 turns = (conv', k')"
    by (cases res) (auto split: prod.splits)
  from Cons.IH [OF this wf1] show ?case .
qed

lemma chat_turns_truthy:
  "chat_turns B model cfg conv turns = (conv', k) \<Longrightarrow> 0 < k \<or> truthy (meta_log conv)
   \<Longrightarrow> truthy (meta_log conv')"
proof (induction turns arbitrary: conv conv' k)
  case Nil
  then show ?case by simp
next
  case (Cons turn turns)
  obtain L q where turn: "turn = (L, q)" by (cases turn)
  obtain evs res conv1 where c: "chat B L model cfg conv q = (evs, res, conv1)"
    by (cases "chat B L model cfg conv q")
  show ?case
  proof (cases res)
    case (Inl e)
    with Cons.prems(1) turn c have r: "chat_turns B model cfg conv1 turns = (conv', k)" by simp
    from chat_failed [OF c [unfolded Inl]] Cons.prems(2)
    have "0 < k \<or> truthy (meta_log conv1)" by simp
    from Cons.IH [OF r this] show ?thesis .
  next
    case (Inr r)
    with Cons.prems(1) turn c obtain k' where
      r: "chat_turns B model cfg conv1 turns = (conv', k')"
      by (auto split: prod.splits)
    from chat_completed [OF c [unfolded Inr]] have "truthy (meta_log conv1)"
      by (auto simp: update_not_Nil)
    then have "0 < k' \<or> truthy (meta_log conv1)" by simp
    from Cons.IH [OF r this] show ?thesis .
  qed
qed

lemma wf_log_chain:
  "wf_log ml \<Longrightarrow>
   ranges_chain 0 (log_entries ml ''session'') (int (length (log_entries ml ''chat'')))"
  by (auto simp: wf_log_def log_entries_def split: json.splits option.splits)

lemma shutdown_finalizes_appended:
  assumes "shutdown_event L W conv = (evs, out, conv')" "finalizes L conv"
  shows "\<exists>S2 c n. log_entries (meta_log conv') ''session''
                     = log_entries (meta_log conv) ''session'' @ [S2]
           \<and> field S2 ''session-start''
               = (if log_entries (meta_log conv) ''session'' = [] then Some (JInt 0)
                  else field (last (log_entries (meta_log conv) ''session'')) ''session-end'')
           \<and> py_item (meta_log conv) ''chat'' = Inr c \<and> py_len c = Inr n
           \<and> field S2 ''session-end'' = Some (JInt (int n))
           \<and> out = W (meta_log conv')
           \<and> evs = [Summarize (chat_session conv) ''chat'' None, WriteLog (meta_log conv')]"
proof -
  from shutdown_finalizes [OF assms(2), of W] obtain kvs s a b where
    k: "meta_log conv = JDict kvs" and a: "session_start (meta_log conv) = Inr a"
    and b: "session_end (meta_log conv) = Inr b"
    and sh: "shutdown_event L W conv
               = (let ml' = JDict (AList.update ''session''
                      (JList (log_entries (meta_log conv) ''session''
                         @ [JDict [(''summary'', JStr s), (''session-start'', a), (''session-end'', b)]])) kvs)
                  in ([Summarize (chat_session conv) ''chat'' None, WriteLog ml'], W ml',
                      conv\<lparr>meta_log := ml'\<rparr>))"
    by blast
  let ?S2 = "JDict [(''summary'', JStr s), (''session-start'', a), (''session-end'', b)]"
  let ?ml' = "JDict (AList.update ''session''
                      (JList (log_entries (meta_log conv) ''session'' @ [?S2])) kvs)"
  from sh assms(1) have res: "evs = [Summarize (chat_session conv) ''chat'' None, WriteLog ?ml']"
    "out = W ?ml'" "conv' = conv\<lparr>meta_log := ?ml'\<rparr>"
    by (simp_all add: Let_def)
  from res(3) have ml': "meta_log conv' = ?ml'" by simp
  have 1: "log_entries (meta_log conv') ''session'' = log_entries (meta_log conv) ''session'' @ [?S2]"
    by (simp only: ml' log_entries_update_same)
  from session_start_cases [OF a] k
  have 2: "field ?S2 ''session-start''
               = (if log_entries (meta_log conv) ''session'' = [] then Some (JInt 0)
                  else field (last (log_entries (meta_log conv) ''session'')) ''session-end'')"
    by (auto simp: field_def log_entries_def)
  from session_end_cases [OF b] obtain c n where
    3: "py_item (meta_log conv) ''chat'' = Inr c" "py_len c = Inr n" "b = JInt (int n)"
    by blast
  then have 4: "field ?S2 ''session-end'' = Some (JInt (int n))"
    by (simp add: field_def)
  from 1 2 3 4 res ml' show ?thesis by auto
qed

lemma shutdown_not_finalizes_unchanged:
  assumes "shutdown_event L W conv = (evs, out, conv')" "\<not> finalizes L conv"
  shows "conv' = conv \<and> (\<forall>j. WriteLog j \<notin> set evs)"
  using shutdown_not_finalizes [OF assms(2), of W] assms(1) by auto

lemma wf_log_finalizes:
  assumes "wf_log (meta_log conv)" "truthy (meta_log conv)"
          "\<not> isl (summarize L (chat_session conv) ''chat'' None)"
  shows "finalizes L conv"
proof -
  from assms(1,2) obtain kvs where k: "meta_log conv = JDict kvs" "kvs \<noteq> []"
    by (cases "meta_log conv") (auto simp: wf_log_def)
  with assms(1) have wf: "wf_log (JDict kvs)" by simp
  from wf_log_session_start [OF wf k(2)] wf_log_session_end [OF wf k(2)] k assms
  show ?thesis by (simp add: finalizes_def)
qed


section \<open>Claims about loading and saving the log\<close>

subsection \<open>A concrete language model and parser for the examples\<close>

fun nested_get :: "json \<Rightarrow> string list \<Rightarrow> json" where
  "nested_get v [] = v"
| "nested_get (JDict kvs) (k # ks) =
     (case map_of kvs k of None \<Rightarrow> JNull | Some v \<Rightarrow> nested_get v ks)"
| "nested_get v (k # ks) = JNull"

text \<open>
  The classifier of the examples takes the message \<open>recall\<close> for a question about the
  notes, with the refined query \<open>coffee shops\<close>, and anything else for conversation.
\<close>

definition demo_llm :: llm where
  "demo_llm =
     \<lparr>understand = (\<lambda>q.
        if q = ''recall''
        then Inr (JDict [(''intent'', JDict [(''memory-type'', JStr ''notes''), (''query'', JStr ''coffee shops'')])])
        else Inr (JDict [(''intent'', JDict [(''memory-type'', JStr ''none'')])])),
      converse = (\<lambda>q session. Inr (''re: '' @ q)),
      summarize = (\<lambda>content summary_type user_query. Inr (''sum: '' @ content)),
      message_to_prompt = (\<lambda>q session response. Inr (session @ q @ response)),
      get_from_dict = nested_get,
      log_record = (\<lambda>q metadata response. JDict [(''message'', JStr q), (''response'', JStr response)])\<rparr>"

definition demo_loads :: "string \<Rightarrow> error + json" where
  "demo_loads content =
     (if content = ''{}'' then Inr (JDict [])
      else if content = ''[]'' then Inr (JList [])
      else Inl JSONDecodeError)"

definition demo_conv :: conversation where
  "demo_conv = \<lparr>chat_session = ''earlier'', meta_log = JNull\<rparr>"

text \<open>
  C6. If the log is empty at shutdown, the shutdown does nothing: it causes no event
  (no summarization, no write of the log file), raises nothing, and leaves the
  conversation, hence the session records, as it was.
\<close>

theorem shutdown_empty_log_noop:
  assumes "meta_log conv = JDict []"
  shows "shutdown_event L write_logfile conv = ([], None, conv)"
  using assms by (simp add: shutdown_event_def)

theorem shutdown_empty_log_noop_witness:
  "meta_log \<lparr>chat_session = [], meta_log = JDict []\<rparr> = JDict []
   \<and> shutdown_event demo_llm (\<lambda>j. None) \<lparr>chat_session = [], meta_log = JDict []\<rparr>
       = ([], None, \<lparr>chat_session = [], meta_log = JDict []\<rparr>)"
proof -
  have h: "meta_log \<lparr>chat_session = [], meta_log = JDict []\<rparr> = JDict []"
    by simp
  show ?thesis
    using h shutdown_empty_log_noop [OF h, of demo_llm "\<lambda>j. None"] by (rule conjI)
qed

text \<open>
  C9. At startup, if the log file is a regular file, what the parser returns for its
  content becomes the log as it is; a content the parser rejects ends the startup with
  that exception, and so does a file whose reading raises (content that cannot be
  decoded, a file that cannot be opened). Whenever the path is a regular file and the
  startup returns a conversation, its log is what the parser returned for the content
  of the file: no other state, in particular no empty one, takes its place. If the
  file does not exist, or is no regular file, the log is the empty dictionary and the
  transcript the empty string.
\<close>

theorem initialize_processor_loads_or_fails:
  "(json_loads content = Inr loaded \<longrightarrow>
      initialize_processor conv0 (RegularFile (Inr content)) json_loads
        = Inr (conv0\<lparr>meta_log := loaded\<rparr>))
   \<and> (json_loads content = Inl e \<longrightarrow>
      initialize_processor conv0 (RegularFile (Inr content)) json_loads = Inl e)
   \<and> (p = Missing \<or> p = NotAFile \<longrightarrow>
      initialize_processor conv0 p json_loads
        = Inr (conv0\<lparr>meta_log := JDict [], chat_session := []\<rparr>))
   \<and> initialize_processor conv0 (RegularFile (Inl e')) json_loads = Inl e'
   \<and> (is_file p \<longrightarrow>
        (\<forall>conv. initialize_processor conv0 p json_loads = Inr conv \<longrightarrow>
           (\<exists>content'. p = RegularFile (Inr content')
              \<and> json_loads content' = Inr (meta_log conv)
              \<and> conv = conv0\<lparr>meta_log := meta_log conv\<rparr>)))"
proof -
  have "is_file p \<longrightarrow>
        (\<forall>conv. initialize_processor conv0 p json_loads = Inr conv \<longrightarrow>
           (\<exists>content'. p = RegularFile (Inr content')
              \<and> json_loads content' = Inr (meta_log conv)
              \<and> conv = conv0\<lparr>meta_log := meta_log conv\<rparr>))"
    by (cases p) (auto simp: initialize_processor_def split: sum.splits)
  then show ?thesis
    by (auto simp: initialize_processor_def)
qed

theorem initialize_processor_loads_or_fails_witness:
  "demo_loads ''[]'' = Inr (JList [])
   \<and> initialize_processor demo_conv (RegularFile (Inr ''[]'')) demo_loads
       = Inr (demo_conv\<lparr>meta_log := JList []\<rparr>)
   \<and> demo_loads ''[1'' = Inl JSONDecodeError
   \<and> initialize_processor demo_conv (RegularFile (Inr ''[1''))  demo_loads
       = Inl JSONDecodeError
   \<and> initialize_processor demo_conv Missing demo_loads
       = Inr (demo_conv\<lparr>meta_log := JDict [], chat_session := []\<rparr>)
   \<and> initialize_processor demo_conv (RegularFile (Inl (OSError ''decode''))) demo_loads
       = Inl (OSError ''decode'')
   \<and> is_file (RegularFile (Inr ''[1''))
   \<and> (\<forall>conv. initialize_processor demo_conv (RegularFile (Inr ''[1'')) demo_loads \<noteq> Inr conv)"
proof -
  have a: "demo_loads ''[]'' = Inr (JList [])"
    by (simp add: demo_loads_def)
  have b: "demo_loads ''[1'' = Inl JSONDecodeError"
    by (simp add: demo_loads_def)
  have f: "is_file (RegularFile (Inr ''[1''))"
    by simp
  note T = initialize_processor_loads_or_fails
        [of demo_loads "''[1''" JNull demo_conv JSONDecodeError "RegularFile (Inr ''[1'')"
            "OSError ''decode''"]
  from T f b have g: "\<forall>conv. initialize_processor demo_conv (RegularFile (Inr ''[1'')) demo_loads \<noteq> Inr conv"
    by auto
  show ?thesis
    using a b f g
      initialize_processor_loads_or_fails
        [of demo_loads "''[]''" "JList []" demo_conv JSONDecodeError Missing "OSError ''decode''"]
      initialize_processor_loads_or_fails
        [of demo_loads "''[1''" JNull demo_conv JSONDecodeError Missing "OSError ''decode''"]
    by blast
qed

subsection \<open>More concrete collaborators and logs for the examples\<close>

definition demo_write :: "json \<Rightarrow> error option" where
  "demo_write j = None"

text \<open>A classifier that is down, and a summarizer that is down.\<close>

definition demo_llm_mute :: llm where
  "demo_llm_mute = demo_llm\<lparr>understand := (\<lambda>q. Inl (LLMError ''down''))\<rparr>"

definition demo_llm_down :: llm where
  "demo_llm_down = demo_llm\<lparr>summarize := (\<lambda>content summary_type user_query. Inl (LLMError ''down''))\<rparr>"

text \<open>The log an earlier run saved after one turn, and the conversation that loaded it.\<close>

definition demo_turn :: json where
  "demo_turn = JDict [(''message'', JStr ''hi''), (''response'', JStr ''re: hi'')]"

definition demo_session :: json where
  "demo_session = JDict [(''summary'', JStr ''sum: hi''), (''session-start'', JInt 0), (''session-end'', JInt 1)]"

definition demo_saved_log :: json where
  "demo_saved_log = JDict [(''chat'', JList [demo_turn]), (''session'', JList [demo_session])]"

definition demo_saved_loads :: "string \<Rightarrow> error + json" where
  "demo_saved_loads content = Inr demo_saved_log"

definition loaded_conv :: conversation where
  "loaded_conv = \<lparr>chat_session = ''earlier'', meta_log = demo_saved_log\<rparr>"

definition fresh_conv :: conversation where
  "fresh_conv = \<lparr>chat_session = [], meta_log = JDict []\<rparr>"

text \<open>Logs without the key \<open>"chat"\<close>: one with an empty session list, one with a session.\<close>

definition empty_sessions_conv :: conversation where
  "empty_sessions_conv = \<lparr>chat_session = ''hi'', meta_log = JDict [(''session'', JList [])]\<rparr>"

definition sessions_only_conv :: conversation where
  "sessions_only_conv = \<lparr>chat_session = ''hi'', meta_log = JDict [(''session'', JList [demo_session])]\<rparr>"

text \<open>The log of the fifth scenario of the specification: three turns, no session yet.\<close>

definition three_turns_conv :: conversation where
  "three_turns_conv =
     \<lparr>chat_session = ''hi'', meta_log = JDict [(''chat'', JList [demo_turn, demo_turn, demo_turn])]\<rparr>"

text \<open>The log of a run that resumed the saved log and completed two more turns.\<close>

definition resumed_conv :: conversation where
  "resumed_conv =
     \<lparr>chat_session = ''hi'',
      meta_log = JDict [(''chat'', JList [demo_turn, demo_turn, demo_turn]),
                        (''session'', JList [demo_session])]\<rparr>"

lemmas chat_defs = chat_def chat_answer_def chat_log_def search_def message_to_log_def py_join_def Let_def

lemmas demo_defs = demo_llm_def demo_llm_mute_def demo_llm_down_def demo_backends_def demo_models_def
  demo_config_def demo_write_def demo_turn_def demo_session_def demo_saved_log_def fresh_conv_def
  demo_conv_def loaded_conv_def empty_sessions_conv_def sessions_only_conv_def three_turns_conv_def
  demo_saved_loads_def resumed_conv_def

lemmas shutdown_defs = shutdown_event_def session_start_def session_end_def add_session_def
  finalizes_def Let_def

section \<open>Claims about the session records\<close>

text \<open>
  C4. A shutdown that builds its session record appends exactly that record S2 to the
  session list: its session-start is the session-end of the record S1 that was last
  before, and 0 when there was none, and its session-end is the length of
  \<open>meta_log["chat"]\<close> at that shutdown. A shutdown that cannot build the record
  leaves the log as it was. With a well-formed, non-empty log the record is built
  whenever the summarizer returns. So a well-formed log (the empty one, or one with session
  ranges that chain from 0 and end within the chat log) stays well-formed under
  shutdowns and under chat turns, and in it any two consecutive session records
  \<open>(a, b)\<close>, \<open>(b, c)\<close> meet at \<open>b\<close> with \<open>a \<le> b \<le> c\<close>: the ranges neither overlap
  nor shrink.
\<close>

theorem shutdown_session_ranges_chain:
  assumes "shutdown_event L W conv = (evs, out, conv')"
  shows "(finalizes L conv \<longrightarrow>
            (\<exists>S2 c n. log_entries (meta_log conv') ''session''
                         = log_entries (meta_log conv) ''session'' @ [S2]
               \<and> field S2 ''session-start''
                   = (if log_entries (meta_log conv) ''session'' = [] then Some (JInt 0)
                      else field (last (log_entries (meta_log conv) ''session'')) ''session-end'')
               \<and> py_item (meta_log conv) ''chat'' = Inr c \<and> py_len c = Inr n
               \<and> field S2 ''session-end'' = Some (JInt (int n))))
       \<and> (\<not> finalizes L conv \<longrightarrow> meta_log conv' = meta_log conv)
       \<and> (wf_log (meta_log conv) \<longrightarrow>
            wf_log (meta_log conv')
            \<and> (\<forall>i. Suc i < length (log_entries (meta_log conv') ''session'') \<longrightarrow>
                 (\<exists>a b c. session_range (log_entries (meta_log conv') ''session'' ! i) = Some (a, b)
                    \<and> session_range (log_entries (meta_log conv') ''session'' ! Suc i) = Some (b, c)
                    \<and> a \<le> b \<and> b \<le> c
                    \<and> c \<le> int (length (log_entries (meta_log conv') ''chat'')))))
       \<and> wf_log (JDict [])
       \<and> (\<forall>B Lc model cfg q evs1 res conv1.
            chat B Lc model cfg conv q = (evs1, res, conv1) \<and> wf_log (meta_log conv)
            \<longrightarrow> wf_log (meta_log conv1))
       \<and> (wf_log (meta_log conv) \<and> truthy (meta_log conv)
            \<and> \<not> isl (summarize L (chat_session conv) ''chat'' None)
            \<longrightarrow> finalizes L conv)"
proof -
  have 1: "finalizes L conv \<longrightarrow>
            (\<exists>S2 c n. log_entries (meta_log conv') ''session''
                         = log_entries (meta_log conv) ''session'' @ [S2]
               \<and> field S2 ''session-start''
                   = (if log_entries (meta_log conv) ''session'' = [] then Some (JInt 0)
                      else field (last (log_entries (meta_log conv) ''session'')) ''session-end'')
               \<and> py_item (meta_log conv) ''chat'' = Inr c \<and> py_len c = Inr n
               \<and> field S2 ''session-end'' = Some (JInt (int n)))"
    using shutdown_finalizes_appended [OF assms] by blast
  have 2: "\<not> finalizes L conv \<longrightarrow> meta_log conv' = meta_log conv"
    using shutdown_not_finalizes_unchanged [OF assms] by simp
  have 3: "wf_log (meta_log conv) \<longrightarrow>
            wf_log (meta_log conv')
            \<and> (\<forall>i. Suc i < length (log_entries (meta_log conv') ''session'') \<longrightarrow>
                 (\<exists>a b c. session_range (log_entries (meta_log conv') ''session'' ! i) = Some (a, b)
                    \<and> session_range (log_entries (meta_log conv') ''session'' ! Suc i) = Some (b, c)
                    \<and> a \<le> b \<and> b \<le> c
                    \<and> c \<le> int (length (log_entries (meta_log conv') ''chat''))))"
  proof
    assume "wf_log (meta_log conv)"
    from shutdown_wf_log [OF assms this] have wf: "wf_log (meta_log conv')" .
    from wf_log_chain [OF wf] ranges_chain_consecutive wf
    show "wf_log (meta_log conv')
            \<and> (\<forall>i. Suc i < length (log_entries (meta_log conv') ''session'') \<longrightarrow>
                 (\<exists>a b c. session_range (log_entries (meta_log conv') ''session'' ! i) = Some (a, b)
                    \<and> session_range (log_entries (meta_log conv') ''session'' ! Suc i) = Some (b, c)
                    \<and> a \<le> b \<and> b \<le> c
                    \<and> c \<le> int (length (log_entries (meta_log conv') ''chat''))))"
      by blast
  qed
  have 5: "\<forall>B Lc model cfg q evs1 res conv1.
            chat B Lc model cfg conv q = (evs1, res, conv1) \<and> wf_log (meta_log conv)
            \<longrightarrow> wf_log (meta_log conv1)"
    using chat_wf_log by blast
  have 6: "wf_log (meta_log conv) \<and> truthy (meta_log conv)
            \<and> \<not> isl (summarize L (chat_session conv) ''chat'' None)
            \<longrightarrow> finalizes L conv"
    using wf_log_finalizes by blast
  from 1 2 3 wf_log_empty 5 6 show ?thesis by blast
qed

theorem shutdown_session_ranges_chain_witness:
  "finalizes demo_llm three_turns_conv
   \<and> wf_log (meta_log three_turns_conv)
   \<and> (\<exists>S2. log_entries (meta_log (snd (snd (shutdown_event demo_llm demo_write three_turns_conv)))) ''session'' = [S2]
         \<and> field S2 ''session-start'' = Some (JInt 0)
         \<and> field S2 ''session-end'' = Some (JInt 3))
   \<and> wf_log (meta_log (snd (snd (shutdown_event demo_llm demo_write three_turns_conv))))
   \<and> wf_log (meta_log resumed_conv)
   \<and> truthy (meta_log resumed_conv)
   \<and> finalizes demo_llm resumed_conv
   \<and> session_range demo_session = Some (0, 1)
   \<and> (\<exists>S2. log_entries (meta_log (snd (snd (shutdown_event demo_llm demo_write resumed_conv)))) ''session''
               = [demo_session, S2]
         \<and> field S2 ''session-start'' = field demo_session ''session-end''
         \<and> session_range S2 = Some (1, 3))
   \<and> wf_log (meta_log (snd (snd (shutdown_event demo_llm demo_write resumed_conv))))"
proof -
  let ?r = "shutdown_event demo_llm demo_write three_turns_conv"
  have r: "?r = (fst ?r, fst (snd ?r), snd (snd ?r))" by simp
  note T = shutdown_session_ranges_chain [OF r]
  have f: "finalizes demo_llm three_turns_conv"
    by (simp add: shutdown_defs demo_defs)
  have w: "wf_log (meta_log three_turns_conv)"
    by (simp add: wf_log_def demo_defs)
  have s: "log_entries (meta_log three_turns_conv) ''session'' = []"
    by (simp add: log_entries_def demo_defs)
  have c: "py_item (meta_log three_turns_conv) ''chat'' = Inr (JList [demo_turn, demo_turn, demo_turn])"
    by (simp add: three_turns_conv_def)
  from T f obtain S2 c n where
    "log_entries (meta_log (snd (snd ?r))) ''session''
       = log_entries (meta_log three_turns_conv) ''session'' @ [S2]"
    "field S2 ''session-start''
       = (if log_entries (meta_log three_turns_conv) ''session'' = [] then Some (JInt 0)
          else field (last (log_entries (meta_log three_turns_conv) ''session'')) ''session-end'')"
    "py_item (meta_log three_turns_conv) ''chat'' = Inr c" "py_len c = Inr n"
    "field S2 ''session-end'' = Some (JInt (int n))"
    by blast
  with s c have a: "\<exists>S2. log_entries (meta_log (snd (snd ?r))) ''session'' = [S2]
         \<and> field S2 ''session-start'' = Some (JInt 0)
         \<and> field S2 ''session-end'' = Some (JInt 3)"
    by auto
  from T w have b: "wf_log (meta_log (snd (snd ?r)))" by blast
  let ?q = "shutdown_event demo_llm demo_write resumed_conv"
  have q: "?q = (fst ?q, fst (snd ?q), snd (snd ?q))" by simp
  note U = shutdown_session_ranges_chain [OF q]
  have w': "wf_log (meta_log resumed_conv)"
    by (simp add: wf_log_def session_range_def field_def demo_defs)
  have t': "truthy (meta_log resumed_conv)"
    by (simp add: resumed_conv_def)
  have u': "\<not> isl (summarize demo_llm (chat_session resumed_conv) ''chat'' None)"
    by (simp add: demo_llm_def)
  from U w' t' u' have f': "finalizes demo_llm resumed_conv"
    by blast
  have s': "log_entries (meta_log resumed_conv) ''session'' = [demo_session]"
    by (simp add: log_entries_def resumed_conv_def)
  have c': "py_item (meta_log resumed_conv) ''chat'' = Inr (JList [demo_turn, demo_turn, demo_turn])"
    by (simp add: resumed_conv_def)
  have e': "field demo_session ''session-end'' = Some (JInt 1)"
    by (simp add: field_def demo_session_def)
  have d': "session_range demo_session = Some (0, 1)"
    by (simp add: session_range_def field_def demo_session_def)
  from U f' obtain S2 c n where S2:
    "log_entries (meta_log (snd (snd ?q))) ''session''
       = log_entries (meta_log resumed_conv) ''session'' @ [S2]"
    "field S2 ''session-start''
       = (if log_entries (meta_log resumed_conv) ''session'' = [] then Some (JInt 0)
          else field (last (log_entries (meta_log resumed_conv) ''session'')) ''session-end'')"
    "py_item (meta_log resumed_conv) ''chat'' = Inr c" "py_len c = Inr n"
    "field S2 ''session-end'' = Some (JInt (int n))"
    by blast
  from S2 s' c' e' have "log_entries (meta_log (snd (snd ?q))) ''session'' = [demo_session, S2]"
    and "field S2 ''session-start'' = Some (JInt 1)" and "field S2 ''session-end'' = Some (JInt 3)"
    by auto
  with e' have a': "\<exists>S2. log_entries (meta_log (snd (snd ?q))) ''session'' = [demo_session, S2]
         \<and> field S2 ''session-start'' = field demo_session ''session-end''
         \<and> session_range S2 = Some (1, 3)"
    by (auto simp: session_range_def)
  from U w' have b': "wf_log (meta_log (snd (snd ?q)))" by blast
  from f w a b w' t' f' d' a' b' show ?thesis by blast
qed

text \<open>
  C5, as the program has it. At a shutdown the session list grows by exactly one record
  if the session record can be built (the log is not empty, the summarizer returns,
  session-start and session-end are computed), and by none otherwise. For a process
  that started from a well-formed log, the record can be built whenever the summarizer
  returns and the process completed at least one turn or started from a non-empty log.
  With an empty log, as in a process that found no log file and completed no turn,
  nothing is appended.
\<close>

theorem shutdown_session_growth:
  assumes "shutdown_event L W conv = (evs, out, conv')"
  shows "length (log_entries (meta_log conv') ''session'')
           = length (log_entries (meta_log conv) ''session'') + (if finalizes L conv then 1 else 0)
       \<and> (meta_log conv = JDict [] \<longrightarrow> \<not> finalizes L conv)
       \<and> (\<forall>conv0 p loads. \<not> is_file p \<and> initialize_processor conv0 p loads = Inr conv
             \<longrightarrow> \<not> finalizes L conv)
       \<and> (\<forall>B model cfg conv0 turns k.
             chat_turns B model cfg conv0 turns = (conv, k) \<and> 0 < k \<and> wf_log (meta_log conv0)
             \<and> \<not> isl (summarize L (chat_session conv) ''chat'' None)
             \<longrightarrow> finalizes L conv)
       \<and> (\<forall>B model cfg conv0 turns k.
             chat_turns B model cfg conv0 turns = (conv, k) \<and> truthy (meta_log conv0)
             \<and> wf_log (meta_log conv0)
             \<and> \<not> isl (summarize L (chat_session conv) ''chat'' None)
             \<longrightarrow> finalizes L conv)
       \<and> (\<not> finalizes L conv \<longrightarrow> conv' = conv)"
proof -
  have 1: "length (log_entries (meta_log conv') ''session'')
           = length (log_entries (meta_log conv) ''session'') + (if finalizes L conv then 1 else 0)"
  proof (cases "finalizes L conv")
    case True
    from shutdown_finalizes_appended [OF assms True] True show ?thesis by auto
  next
    case False
    from shutdown_not_finalizes_unchanged [OF assms False] False show ?thesis by simp
  qed
  have 2: "meta_log conv = JDict [] \<longrightarrow> \<not> finalizes L conv"
    by (simp add: finalizes_def)
  have 3: "\<forall>conv0 p loads. \<not> is_file p \<and> initialize_processor conv0 p loads = Inr conv
             \<longrightarrow> \<not> finalizes L conv"
    by (auto simp: initialize_processor_def finalizes_def)
  have 4: "\<forall>B model cfg conv0 turns k.
             chat_turns B model cfg conv0 turns = (conv, k) \<and> 0 < k \<and> wf_log (meta_log conv0)
             \<and> \<not> isl (summarize L (chat_session conv) ''chat'' None)
             \<longrightarrow> finalizes L conv"
    using chat_turns_wf_log chat_turns_truthy wf_log_finalizes by blast
  have 5: "\<forall>B model cfg conv0 turns k.
             chat_turns B model cfg conv0 turns = (conv, k) \<and> truthy (meta_log conv0)
             \<and> wf_log (meta_log conv0)
             \<and> \<not> isl (summarize L (chat_session conv) ''chat'' None)
             \<longrightarrow> finalizes L conv"
    using chat_turns_wf_log chat_turns_truthy wf_log_finalizes by blast
  have 6: "\<not> finalizes L conv \<longrightarrow> conv' = conv"
    using shutdown_not_finalizes_unchanged [OF assms] by blast
  from 1 2 3 4 5 6 show ?thesis by blast
qed

theorem shutdown_session_growth_witness:
  "snd (chat_turns demo_backends demo_models demo_config fresh_conv [(demo_llm, ''hello'')]) = 1
   \<and> wf_log (meta_log fresh_conv)
   \<and> length (log_entries (meta_log (snd (snd (shutdown_event demo_llm demo_write
        (fst (chat_turns demo_backends demo_models demo_config fresh_conv [(demo_llm, ''hello'')])))))) ''session'')
     = length (log_entries (meta_log
        (fst (chat_turns demo_backends demo_models demo_config fresh_conv [(demo_llm, ''hello'')]))) ''session'') + 1
   \<and> chat_turns demo_backends demo_models demo_config loaded_conv [] = (loaded_conv, 0)
   \<and> truthy (meta_log loaded_conv)
   \<and> wf_log (meta_log loaded_conv)
   \<and> finalizes demo_llm loaded_conv
   \<and> length (log_entries (meta_log (snd (snd (shutdown_event demo_llm demo_write loaded_conv)))) ''session'')
     = length (log_entries (meta_log loaded_conv) ''session'') + 1
   \<and> meta_log fresh_conv = JDict []
   \<and> \<not> finalizes demo_llm fresh_conv
   \<and> snd (snd (shutdown_event demo_llm demo_write fresh_conv)) = fresh_conv"
proof -
  let ?t = "chat_turns demo_backends demo_models demo_config fresh_conv [(demo_llm, ''hello'')]"
  let ?r = "shutdown_event demo_llm demo_write (fst ?t)"
  have r: "?r = (fst ?r, fst (snd ?r), snd (snd ?r))" by simp
  note T = shutdown_session_growth [OF r]
  have k: "snd ?t = 1"
    by (simp add: chat_defs demo_defs)
  then have t: "?t = (fst ?t, 1)"
    by (metis prod.collapse)
  have w: "wf_log (meta_log fresh_conv)"
    by (simp add: wf_log_def fresh_conv_def)
  have s: "\<not> isl (summarize demo_llm (chat_session (fst ?t)) ''chat'' None)"
    by (simp add: demo_llm_def)
  from T t w s have f: "finalizes demo_llm (fst ?t)"
    by (metis zero_less_one)
  from T have "length (log_entries (meta_log (snd (snd ?r))) ''session'')
           = length (log_entries (meta_log (fst ?t)) ''session'')
             + (if finalizes demo_llm (fst ?t) then 1 else 0)"
    by (rule conjunct1)
  with f have g: "length (log_entries (meta_log (snd (snd ?r))) ''session'')
           = length (log_entries (meta_log (fst ?t)) ''session'') + 1"
    by simp
  let ?q = "shutdown_event demo_llm demo_write loaded_conv"
  have q: "?q = (fst ?q, fst (snd ?q), snd (snd ?q))" by simp
  note U = shutdown_session_growth [OF q]
  have t': "chat_turns demo_backends demo_models demo_config loaded_conv [] = (loaded_conv, 0)"
    by simp
  have y': "truthy (meta_log loaded_conv)"
    by (simp add: loaded_conv_def demo_saved_log_def)
  have w': "wf_log (meta_log loaded_conv)"
    by (simp add: wf_log_def session_range_def field_def demo_defs)
  have s': "\<not> isl (summarize demo_llm (chat_session loaded_conv) ''chat'' None)"
    by (simp add: demo_llm_def)
  from U t' y' w' s' have f': "finalizes demo_llm loaded_conv"
    by blast
  from U have "length (log_entries (meta_log (snd (snd ?q))) ''session'')
           = length (log_entries (meta_log loaded_conv) ''session'')
             + (if finalizes demo_llm loaded_conv then 1 else 0)"
    by (rule conjunct1)
  with f' have g': "length (log_entries (meta_log (snd (snd ?q))) ''session'')
           = length (log_entries (meta_log loaded_conv) ''session'') + 1"
    by simp
  let ?p = "shutdown_event demo_llm demo_write fresh_conv"
  have p: "?p = (fst ?p, fst (snd ?p), snd (snd ?p))" by simp
  note V = shutdown_session_growth [OF p]
  have m: "meta_log fresh_conv = JDict []"
    by (simp add: fresh_conv_def)
  from V m have n: "\<not> finalizes demo_llm fresh_conv"
    by blast
  from V n have u: "snd (snd ?p) = fresh_conv"
    by blast
  from k w g t' y' w' f' g' m n u show ?thesis by blast
qed

text \<open>
  C5 as the specification states it fails: a process that loads the well-formed log of an
  earlier run and completes no turn still appends a session record at shutdown.
\<close>

theorem shutdown_without_turns_counterexample:
  "initialize_processor demo_conv (RegularFile (Inr ''saved'')) demo_saved_loads = Inr loaded_conv
   \<and> chat_turns demo_backends demo_models demo_config loaded_conv [] = (loaded_conv, 0)
   \<and> length (log_entries (meta_log loaded_conv) ''session'') = 1
   \<and> length (log_entries (meta_log (snd (snd (shutdown_event demo_llm demo_write loaded_conv)))) ''session'') = 2"
  by (simp add: initialize_processor_def shutdown_defs log_entries_def demo_defs)

section \<open>Claims about a log without chat records\<close>

text \<open>
  C10, as the program has it. If the log is a non-empty dictionary without the key
  \<open>"chat"\<close>, the shutdown raises after the call of the summarizer: no session record
  is appended (the conversation is unchanged) and no log file is written. The
  exception is the one of the summarizer if it raises, else the one of the
  session-start lookup if that fails, and else, whenever the summarizer returns and
  session-start is computed, the failed lookup of \<open>"chat"\<close>.
\<close>

theorem shutdown_without_chat_fails:
  assumes "meta_log conv = JDict kvs" "kvs \<noteq> []" "map_of kvs ''chat'' = None"
  shows "shutdown_event L W conv
           = ([Summarize (chat_session conv) ''chat'' None],
              Some (case summarize L (chat_session conv) ''chat'' None of
                      Inl e \<Rightarrow> e
                    | Inr summary \<Rightarrow>
                        (case session_start (meta_log conv) of
                           Inl e \<Rightarrow> e
                         | Inr start \<Rightarrow> KeyError ''chat'')),
              conv)
       \<and> (\<not> isl (summarize L (chat_session conv) ''chat'' None)
            \<and> \<not> isl (session_start (meta_log conv))
            \<longrightarrow> shutdown_event L W conv
                  = ([Summarize (chat_session conv) ''chat'' None], Some (KeyError ''chat''), conv))
       \<and> (\<forall>j. WriteLog j \<notin> set (fst (shutdown_event L W conv)))
       \<and> log_entries (meta_log (snd (snd (shutdown_event L W conv)))) ''session''
           = log_entries (meta_log conv) ''session''"
proof -
  have e: "session_end (meta_log conv) = Inl (KeyError ''chat'')"
    using assms by (simp add: session_end_def)
  have 1: "shutdown_event L W conv
           = ([Summarize (chat_session conv) ''chat'' None],
              Some (case summarize L (chat_session conv) ''chat'' None of
                      Inl e \<Rightarrow> e
                    | Inr summary \<Rightarrow>
                        (case session_start (meta_log conv) of
                           Inl e \<Rightarrow> e
                         | Inr start \<Rightarrow> KeyError ''chat'')),
              conv)"
    using e assms(1,2)
    by (auto simp: shutdown_event_def Let_def split: sum.splits)
  have 2: "\<not> isl (summarize L (chat_session conv) ''chat'' None)
            \<and> \<not> isl (session_start (meta_log conv))
            \<longrightarrow> shutdown_event L W conv
                  = ([Summarize (chat_session conv) ''chat'' None], Some (KeyError ''chat''), conv)"
    unfolding 1 by (auto split: sum.splits)
  have 3: "\<forall>j. WriteLog j \<notin> set (fst (shutdown_event L W conv))"
    unfolding 1 by simp
  have 4: "log_entries (meta_log (snd (snd (shutdown_event L W conv)))) ''session''
           = log_entries (meta_log conv) ''session''"
    unfolding 1 by simp
  from 1 2 3 4 show ?thesis by blast
qed

theorem shutdown_without_chat_fails_witness:
  "meta_log sessions_only_conv = JDict [(''session'', JList [demo_session])]
   \<and> map_of [(''session'', JList [demo_session])] ''chat'' = None
   \<and> shutdown_event demo_llm demo_write sessions_only_conv
       = ([Summarize (chat_session sessions_only_conv) ''chat'' None], Some (KeyError ''chat''),
          sessions_only_conv)
   \<and> shutdown_event demo_llm_down demo_write sessions_only_conv
       = ([Summarize (chat_session sessions_only_conv) ''chat'' None], Some (LLMError ''down''),
          sessions_only_conv)
   \<and> meta_log empty_sessions_conv = JDict [(''session'', JList [])]
   \<and> shutdown_event demo_llm demo_write empty_sessions_conv
       = ([Summarize (chat_session empty_sessions_conv) ''chat'' None], Some IndexError,
          empty_sessions_conv)"
proof -
  have m: "meta_log sessions_only_conv = JDict [(''session'', JList [demo_session])]"
    by (simp add: sessions_only_conv_def)
  have n: "[(''session'', JList [demo_session])] \<noteq> []" by simp
  have c: "map_of [(''session'', JList [demo_session])] ''chat'' = None" by simp
  have s: "\<not> isl (summarize demo_llm (chat_session sessions_only_conv) ''chat'' None)"
    by (simp add: demo_llm_def)
  have a: "\<not> isl (session_start (meta_log sessions_only_conv))"
    by (simp add: session_start_def demo_defs)
  from shutdown_without_chat_fails [OF m n c, of demo_llm demo_write] s a
  have 1: "shutdown_event demo_llm demo_write sessions_only_conv
       = ([Summarize (chat_session sessions_only_conv) ''chat'' None], Some (KeyError ''chat''),
          sessions_only_conv)"
    by blast
  have d: "summarize demo_llm_down (chat_session sessions_only_conv) ''chat'' None
             = Inl (LLMError ''down'')"
    by (simp add: demo_llm_down_def)
  from shutdown_without_chat_fails [OF m n c, of demo_llm_down demo_write]
  have "shutdown_event demo_llm_down demo_write sessions_only_conv
           = ([Summarize (chat_session sessions_only_conv) ''chat'' None],
              Some (case summarize demo_llm_down (chat_session sessions_only_conv) ''chat'' None of
                      Inl e \<Rightarrow> e
                    | Inr summary \<Rightarrow>
                        (case session_start (meta_log sessions_only_conv) of
                           Inl e \<Rightarrow> e
                         | Inr start \<Rightarrow> KeyError ''chat'')),
              sessions_only_conv)"
    by (rule conjunct1)
  then have 2: "shutdown_event demo_llm_down demo_write sessions_only_conv
       = ([Summarize (chat_session sessions_only_conv) ''chat'' None], Some (LLMError ''down''),
          sessions_only_conv)"
    by (simp add: d)
  have m': "meta_log empty_sessions_conv = JDict [(''session'', JList [])]"
    by (simp add: empty_sessions_conv_def)
  have n': "[(''session'', JList [])] \<noteq> []" by simp
  have c': "map_of [(''session'', JList [])] ''chat'' = None" by simp
  have s': "summarize demo_llm (chat_session empty_sessions_conv) ''chat'' None
              = Inr (''sum: '' @ chat_session empty_sessions_conv)"
    by (simp add: demo_llm_def)
  have a': "session_start (meta_log empty_sessions_conv) = Inl IndexError"
    by (simp add: session_start_def empty_sessions_conv_def)
  from shutdown_without_chat_fails [OF m' n' c', of demo_llm demo_write]
  have "shutdown_event demo_llm demo_write empty_sessions_conv
           = ([Summarize (chat_session empty_sessions_conv) ''chat'' None],
              Some (case summarize demo_llm (chat_session empty_sessions_conv) ''chat'' None of
                      Inl e \<Rightarrow> e
                    | Inr summary \<Rightarrow>
                        (case session_start (meta_log empty_sessions_conv) of
                           Inl e \<Rightarrow> e
                         | Inr start \<Rightarrow> KeyError ''chat'')),
              empty_sessions_conv)"
    by (rule conjunct1)
  then have 3: "shutdown_event demo_llm demo_write empty_sessions_conv
       = ([Summarize (chat_session empty_sessions_conv) ''chat'' None], Some IndexError,
          empty_sessions_conv)"
    by (simp add: s' a')
  from m c 1 2 m' 3 show ?thesis by blast
qed

text \<open>
  C10 as stated fails: with an empty session list and no chat records
  the shutdown raises on the last element of the session list, and with a summarizer
  that raises it ends with that exception; neither is the lookup of \<open>"chat"\<close>.
\<close>

theorem shutdown_without_chat_counterexample:
  "truthy (meta_log empty_sessions_conv)
   \<and> \<not> py_contains (meta_log empty_sessions_conv) ''chat''
   \<and> shutdown_event demo_llm demo_write empty_sessions_conv
       = ([Summarize ''hi'' ''chat'' None], Some IndexError, empty_sessions_conv)
   \<and> IndexError \<noteq> KeyError ''chat''
   \<and> truthy (meta_log sessions_only_conv)
   \<and> \<not> py_contains (meta_log sessions_only_conv) ''chat''
   \<and> shutdown_event demo_llm_down demo_write sessions_only_conv
       = ([Summarize ''hi'' ''chat'' None], Some (LLMError ''down''), sessions_only_conv)
   \<and> LLMError ''down'' \<noteq> KeyError ''chat''"
  by (simp add: shutdown_defs demo_defs)

section \<open>Claims about chat\<close>




lemma entries_of_bodies:
  "map (\<lambda>item. field item ''Entry'') items = map (\<lambda>b. Some (JStr b)) bodies
   \<Longrightarrow> entries_of items = Inr (map JStr bodies)"
proof (induction items arbitrary: bodies)
  case Nil
  then show ?case by simp
next
  case (Cons item items)
  then obtain b bs where bodies: "bodies = b # bs" by (cases bodies) auto
  with Cons.prems have "py_item item ''Entry'' = Inr (JStr b)"
    and "map (\<lambda>item. field item ''Entry'') items = map (\<lambda>b. Some (JStr b)) bs"
    by (simp_all add: py_item_field)
  with Cons.IH [of bs] bodies show ?case by simp
qed

lemma strings_of_strings: "strings_of (map JStr bodies) = Inr bodies"
  by (induction bodies) simp_all

lemma chat_events: "fst (chat B L model cfg conv q) = fst (chat_answer B L model cfg conv q)"
  by (auto simp: chat_def split: prod.splits sum.splits option.splits)

lemma chat_response:
  "chat B L model cfg conv q = (evs, Inr r, conv')
   \<Longrightarrow> \<exists>metadata. chat_answer B L model cfg conv q = (evs, Inr (metadata, r))"
  by (auto simp: chat_def split: prod.splits sum.splits option.splits)

text \<open>
  What \<open>join_strings\<close> returns: nothing for no string, and else the first string
  followed by each further string with the separator before it.
\<close>

lemma join_strings_closed:
  "join_strings sep bodies
     = (case bodies of [] \<Rightarrow> [] | b # bs \<Rightarrow> b @ concat (map (\<lambda>x. sep @ x) bs))"
  by (induction sep bodies rule: join_strings.induct) simp_all

text \<open>
  C7. After the classification of the intent: if the memory type of the intent is
  \<open>notes\<close>, the turn calls search with the refined query of the intent metadata, the
  count 1 and the type filter Notes, and calls the summarizer once, with the summary
  type \<open>notes\<close> and the message of the user, on the \<open>Entry\<close> bodies of the results
  joined with newlines: the first body, then every further body with a newline
  character before it (the empty text when there is no result). The conversational
  completion is not called. For every other intent the turn calls the completion with
  the message and the current transcript, and neither the search nor the summarizer.
  The events of the whole turn are these, and the response it returns is the answer of
  the call.
\<close>

theorem chat_answers_from_notes_or_conversation:
  assumes "understand L q = Inr metadata"
  shows "(get_from_dict L metadata [''intent'', ''memory-type''] = JStr ''notes'' \<longrightarrow>
           (\<forall>sevs result_list items bodies.
              search B model cfg (get_from_dict L metadata [''intent'', ''query'']) (Some 1) (Some Notes)
                = (sevs, Inr result_list)
              \<and> py_iter result_list = Inr items
              \<and> map (\<lambda>item. field item ''Entry'') items = map (\<lambda>b. Some (JStr b)) bodies
              \<longrightarrow> chat_answer B L model cfg conv q
                    = (Understand q # sevs
                         @ [Summarize
                              (case bodies of
                                 [] \<Rightarrow> []
                               | b # bs \<Rightarrow> b @ concat (map (\<lambda>x. CHR 0x0A # x) bs))
                              ''notes'' (Some q)],
                       case summarize L
                              (case bodies of
                                 [] \<Rightarrow> []
                               | b # bs \<Rightarrow> b @ concat (map (\<lambda>x. CHR 0x0A # x) bs))
                              ''notes'' (Some q) of
                         Inl e \<Rightarrow> Inl e
                       | Inr gpt_response \<Rightarrow> Inr (metadata, gpt_response))))
       \<and> (get_from_dict L metadata [''intent'', ''memory-type''] \<noteq> JStr ''notes'' \<longrightarrow>
            chat_answer B L model cfg conv q
              = ([Understand q, Converse q (chat_session conv)],
                 case converse L q (chat_session conv) of
                   Inl e \<Rightarrow> Inl e
                 | Inr gpt_response \<Rightarrow> Inr (metadata, gpt_response)))
       \<and> fst (chat B L model cfg conv q) = fst (chat_answer B L model cfg conv q)
       \<and> (\<forall>evs r conv'. chat B L model cfg conv q = (evs, Inr r, conv')
             \<longrightarrow> chat_answer B L model cfg conv q = (evs, Inr (metadata, r)))"
proof -
  have from_notes: "get_from_dict L metadata [''intent'', ''memory-type''] = JStr ''notes'' \<longrightarrow>
           (\<forall>sevs result_list items bodies.
              search B model cfg (get_from_dict L metadata [''intent'', ''query'']) (Some 1) (Some Notes)
                = (sevs, Inr result_list)
              \<and> py_iter result_list = Inr items
              \<and> map (\<lambda>item. field item ''Entry'') items = map (\<lambda>b. Some (JStr b)) bodies
              \<longrightarrow> chat_answer B L model cfg conv q
                    = (Understand q # sevs
                         @ [Summarize (join_strings [CHR 0x0A] bodies) ''notes'' (Some q)],
                       case summarize L (join_strings [CHR 0x0A] bodies) ''notes'' (Some q) of
                         Inl e \<Rightarrow> Inl e
                       | Inr gpt_response \<Rightarrow> Inr (metadata, gpt_response)))"
    using assms
    by (auto simp: chat_answer_def py_join_def strings_of_strings dest!: entries_of_bodies)
  have closed: "\<And>bodies. join_strings [CHR 0x0A] bodies
                  = (case bodies of [] \<Rightarrow> [] | b # bs \<Rightarrow> b @ concat (map (\<lambda>x. CHR 0x0A # x) bs))"
  proof -
    fix bodies :: "string list"
    have cons: "(@) [CHR 0x0A] = (#) (CHR 0x0A)"
      by (rule ext) simp
    show "join_strings [CHR 0x0A] bodies
            = (case bodies of [] \<Rightarrow> [] | b # bs \<Rightarrow> b @ concat (map (\<lambda>x. CHR 0x0A # x) bs))"
      by (cases bodies) (simp_all add: join_strings_closed cons)
  qed
  have other: "get_from_dict L metadata [''intent'', ''memory-type''] \<noteq> JStr ''notes'' \<longrightarrow>
            chat_answer B L model cfg conv q
              = ([Understand q, Converse q (chat_session conv)],
                 case converse L q (chat_session conv) of
                   Inl e \<Rightarrow> Inl e
                 | Inr gpt_response \<Rightarrow> Inr (metadata, gpt_response))"
    using assms by (simp add: chat_answer_def)
  have resp: "\<forall>evs r conv'. chat B L model cfg conv q = (evs, Inr r, conv')
             \<longrightarrow> chat_answer B L model cfg conv q = (evs, Inr (metadata, r))"
  proof (intro allI impI)
    fix evs r conv'
    assume "chat B L model cfg conv q = (evs, Inr r, conv')"
    from chat_response [OF this] obtain md where
      md: "chat_answer B L model cfg conv q = (evs, Inr (md, r))" by blast
    with assms have "md = metadata"
      by (auto simp: chat_answer_def Let_def split: if_splits sum.splits prod.splits)
    with md show "chat_answer B L model cfg conv q = (evs, Inr (metadata, r))" by simp
  qed
  from from_notes [unfolded closed] other chat_events resp show ?thesis by blast
qed

definition demo_notes_models :: "nat search_models" where
  "demo_notes_models = demo_models\<lparr>notes_search := Some 1\<rparr>"

text \<open>A notes backend whose collation returns two entries.\<close>

definition two_notes_backends :: "(nat, nat list, string) backends" where
  "two_notes_backends =
     demo_backends\<lparr>asymmetric_collate :=
       (\<lambda>hits h n. Inr (JList [JDict [(''Entry'', JStr ''first'')],
                                JDict [(''Entry'', JStr ''second'')]]))\<rparr>"

definition recall_metadata :: json where
  "recall_metadata =
     JDict [(''intent'', JDict [(''memory-type'', JStr ''notes''), (''query'', JStr ''coffee shops'')])]"

definition small_talk_metadata :: json where
  "small_talk_metadata = JDict [(''intent'', JDict [(''memory-type'', JStr ''none'')])]"

theorem chat_answers_from_notes_or_conversation_witness:
  "understand demo_llm ''recall'' = Inr recall_metadata
   \<and> get_from_dict demo_llm recall_metadata [''intent'', ''memory-type''] = JStr ''notes''
   \<and> chat_answer demo_backends demo_llm demo_notes_models demo_config demo_conv ''recall''
       = ([Understand ''recall'', Query Notes (JStr ''coffee shops''), Collate Notes,
           Summarize ''note'' ''notes'' (Some ''recall'')],
          Inr (recall_metadata, ''sum: note''))
   \<and> chat_answer two_notes_backends demo_llm demo_notes_models demo_config demo_conv ''recall''
       = ([Understand ''recall'', Query Notes (JStr ''coffee shops''), Collate Notes,
           Summarize (''first'' @ [CHR 0x0A] @ ''second'') ''notes'' (Some ''recall'')],
          Inr (recall_metadata, ''sum: first'' @ [CHR 0x0A] @ ''second''))
   \<and> understand demo_llm ''hello'' = Inr small_talk_metadata
   \<and> get_from_dict demo_llm small_talk_metadata [''intent'', ''memory-type''] \<noteq> JStr ''notes''
   \<and> chat_answer demo_backends demo_llm demo_notes_models demo_config demo_conv ''hello''
       = ([Understand ''hello'', Converse ''hello'' ''earlier''],
          Inr (small_talk_metadata, ''re: hello''))"
proof -
  have u: "understand demo_llm ''recall'' = Inr recall_metadata"
    by (simp add: demo_llm_def recall_metadata_def)
  have g: "get_from_dict demo_llm recall_metadata [''intent'', ''memory-type''] = JStr ''notes''"
    by (simp add: demo_llm_def recall_metadata_def)
  have s: "search demo_backends demo_notes_models demo_config
             (get_from_dict demo_llm recall_metadata [''intent'', ''query'']) (Some 1) (Some Notes)
           = ([Query Notes (JStr ''coffee shops''), Collate Notes],
              Inr (JList [JDict [(''Entry'', JStr ''note'')]]))"
    by (simp add: search_def demo_defs demo_notes_models_def recall_metadata_def)
  have i: "py_iter (JList [JDict [(''Entry'', JStr ''note'')]]) = Inr [JDict [(''Entry'', JStr ''note'')]]"
    by simp
  have e: "map (\<lambda>item. field item ''Entry'') [JDict [(''Entry'', JStr ''note'')]]
             = map (\<lambda>b. Some (JStr b)) [''note'']"
    by (simp add: field_def)
  note T = chat_answers_from_notes_or_conversation
             [OF u, of demo_backends demo_notes_models demo_config demo_conv]
  from T g s i e
  have "chat_answer demo_backends demo_llm demo_notes_models demo_config demo_conv ''recall''
          = (Understand ''recall'' # [Query Notes (JStr ''coffee shops''), Collate Notes]
               @ [Summarize (case [''note''] of [] \<Rightarrow> []
                             | b # bs \<Rightarrow> b @ concat (map (\<lambda>x. CHR 0x0A # x) bs))
                    ''notes'' (Some ''recall'')],
             case summarize demo_llm
                    (case [''note''] of [] \<Rightarrow> []
                     | b # bs \<Rightarrow> b @ concat (map (\<lambda>x. CHR 0x0A # x) bs))
                    ''notes'' (Some ''recall'') of
               Inl e \<Rightarrow> Inl e
             | Inr gpt_response \<Rightarrow> Inr (recall_metadata, gpt_response))"
    by blast
  then have notes_turn:
    "chat_answer demo_backends demo_llm demo_notes_models demo_config demo_conv ''recall''
       = ([Understand ''recall'', Query Notes (JStr ''coffee shops''), Collate Notes,
           Summarize ''note'' ''notes'' (Some ''recall'')],
          Inr (recall_metadata, ''sum: note''))"
    by (simp add: demo_llm_def)
  have s2: "search two_notes_backends demo_notes_models demo_config
             (get_from_dict demo_llm recall_metadata [''intent'', ''query'']) (Some 1) (Some Notes)
           = ([Query Notes (JStr ''coffee shops''), Collate Notes],
              Inr (JList [JDict [(''Entry'', JStr ''first'')], JDict [(''Entry'', JStr ''second'')]]))"
    by (simp add: search_def two_notes_backends_def demo_defs demo_notes_models_def recall_metadata_def)
  have i2: "py_iter (JList [JDict [(''Entry'', JStr ''first'')], JDict [(''Entry'', JStr ''second'')]])
              = Inr [JDict [(''Entry'', JStr ''first'')], JDict [(''Entry'', JStr ''second'')]]"
    by simp
  have e2: "map (\<lambda>item. field item ''Entry'')
              [JDict [(''Entry'', JStr ''first'')], JDict [(''Entry'', JStr ''second'')]]
             = map (\<lambda>b. Some (JStr b)) [''first'', ''second'']"
    by (simp add: field_def)
  note T2 = chat_answers_from_notes_or_conversation
             [OF u, of two_notes_backends demo_notes_models demo_config demo_conv]
  from T2 g s2 i2 e2
  have "chat_answer two_notes_backends demo_llm demo_notes_models demo_config demo_conv ''recall''
          = (Understand ''recall'' # [Query Notes (JStr ''coffee shops''), Collate Notes]
               @ [Summarize (case [''first'', ''second''] of [] \<Rightarrow> []
                             | b # bs \<Rightarrow> b @ concat (map (\<lambda>x. CHR 0x0A # x) bs))
                    ''notes'' (Some ''recall'')],
             case summarize demo_llm
                    (case [''first'', ''second''] of [] \<Rightarrow> []
                     | b # bs \<Rightarrow> b @ concat (map (\<lambda>x. CHR 0x0A # x) bs))
                    ''notes'' (Some ''recall'') of
               Inl e \<Rightarrow> Inl e
             | Inr gpt_response \<Rightarrow> Inr (recall_metadata, gpt_response))"
    by blast
  then have two_notes_turn:
    "chat_answer two_notes_backends demo_llm demo_notes_models demo_config demo_conv ''recall''
       = ([Understand ''recall'', Query Notes (JStr ''coffee shops''), Collate Notes,
           Summarize (''first'' @ [CHR 0x0A] @ ''second'') ''notes'' (Some ''recall'')],
          Inr (recall_metadata, ''sum: first'' @ [CHR 0x0A] @ ''second''))"
    by (simp add: demo_llm_def)
  have u': "understand demo_llm ''hello'' = Inr small_talk_metadata"
    by (simp add: demo_llm_def small_talk_metadata_def)
  have g': "get_from_dict demo_llm small_talk_metadata [''intent'', ''memory-type''] \<noteq> JStr ''notes''"
    by (simp add: demo_llm_def small_talk_metadata_def)
  note T' = chat_answers_from_notes_or_conversation
              [OF u', of demo_backends demo_notes_models demo_config demo_conv]
  from T' g'
  have "chat_answer demo_backends demo_llm demo_notes_models demo_config demo_conv ''hello''
          = ([Understand ''hello'', Converse ''hello'' (chat_session demo_conv)],
             case converse demo_llm ''hello'' (chat_session demo_conv) of
               Inl e \<Rightarrow> Inl e
             | Inr gpt_response \<Rightarrow> Inr (small_talk_metadata, gpt_response))"
    by blast
  then have "chat_answer demo_backends demo_llm demo_notes_models demo_config demo_conv ''hello''
       = ([Understand ''hello'', Converse ''hello'' ''earlier''],
          Inr (small_talk_metadata, ''re: hello''))"
    by (simp add: demo_llm_def demo_conv_def)
  with u g notes_turn two_notes_turn u' g' show ?thesis by blast
qed

end
